theory Spec2Isabelle
  imports Complex_Main
begin

chapter \<open>The medical codex pipeline: code, description, last\_updated\<close>

text \<open>
  A shallow embedding of the scripts under \<^verbatim>\<open>src/scripts\<close> and of
  \<^verbatim>\<open>src/utils/common_functions.py\<close>. Each definition carries the name of the Python
  function or module-level statement it translates.

  Conventions of the embedding.
  \<^item> A Python \<^verbatim>\<open>str\<close> is a HOL \<open>string\<close>; the character with code \<open>n\<close> stands for the
    code point \<open>n\<close>, so the embedding covers text whose code points are below 256. The
    character classes below are Python's for that range.
  \<^item> A pandas cell is a \<open>string option\<close>: every frame of the scripts is read with
    \<^verbatim>\<open>dtype=str\<close>, and \<open>None\<close> is the missing value (NaN).
  \<^item> The library is pandas 2, the release line of September 2025, the date the scripts
    carry. Two of its rules shape the results below. \<^verbatim>\<open>astype(str)\<close> turns a missing cell
    into the text \<open>nan\<close> (pandas 3 leaves the cell missing, and a missing description then
    passes \<^verbatim>\<open>.ne("")\<close>). And a selection \<^verbatim>\<open>df[s]\<close> by an empty series of objects selects no
    column, so that the next read of a column raises \<^verbatim>\<open>KeyError\<close>.
  \<^item> Paths follow \<^verbatim>\<open>pathlib.PurePosixPath\<close> of Python 3.12 and 3.13.
  \<^item> The labels of a frame are pairwise distinct, as the reader of pandas makes them.
  \<^item> An exception is a value \<open>Inl e\<close> of a sum type.
  \<^item> The clock is a parameter: the script receives the reading of
    \<^verbatim>\<open>datetime.now(timezone.utc)\<close> as a record.
  \<^item> A mean of a pandas column is an exact quotient (\<open>rat\<close>); the mean of no values,
    NaN in pandas, is \<open>None\<close>, and every comparison with it is false.
\<close>

section \<open>Text\<close>

definition chr_between :: "char \<Rightarrow> char \<Rightarrow> char \<Rightarrow> bool" where
  "chr_between lo hi c = ((of_char lo :: nat) \<le> of_char c \<and> (of_char c :: nat) \<le> of_char hi)"

text \<open>\<^verbatim>\<open>str.isspace\<close>, which is also the class \<^verbatim>\<open>\s\<close> of \<^verbatim>\<open>re\<close> on \<^verbatim>\<open>str\<close> patterns.\<close>

definition py_isspace :: "char \<Rightarrow> bool" where
  "py_isspace c = (chr_between (CHR 0x09) (CHR 0x0D) c \<or> chr_between (CHR 0x1C) (CHR 0x20) c
                   \<or> c = CHR 0x85 \<or> c = CHR 0xA0)"

text \<open>The class \<^verbatim>\<open>\d\<close>: the decimal digits. Below code point 256 these are 0 to 9.\<close>

definition re_digit :: "char \<Rightarrow> bool" where
  "re_digit c = chr_between CHR ''0'' CHR ''9'' c"

text \<open>The class \<^verbatim>\<open>\w\<close>: alphanumeric characters and the underscore.\<close>

definition re_word :: "char \<Rightarrow> bool" where
  "re_word c = (chr_between CHR ''a'' CHR ''z'' c \<or> chr_between CHR ''A'' CHR ''Z'' c
                \<or> re_digit c \<or> c = CHR ''_''
                \<or> c \<in> set [CHR 0xAA, CHR 0xB2, CHR 0xB3, CHR 0xB5, CHR 0xB9, CHR 0xBA,
                             CHR 0xBC, CHR 0xBD, CHR 0xBE]
                \<or> (chr_between (CHR 0xC0) (CHR 0xFF) c \<and> c \<noteq> CHR 0xD7 \<and> c \<noteq> CHR 0xF7))"

text \<open>\<^verbatim>\<open>str.isdigit\<close>: non-empty, and every character a digit (the superscripts included).\<close>

definition str_isdigit :: "string \<Rightarrow> bool" where
  "str_isdigit s =
     (s \<noteq> [] \<and> list_all (\<lambda>c. re_digit c \<or> c \<in> set [CHR 0xB2, CHR 0xB3, CHR 0xB9]) s)"

text \<open>\<^verbatim>\<open>int(ch)\<close> for a decimal digit.\<close>

definition int_of_digit :: "char \<Rightarrow> int" where
  "int_of_digit c = int (of_char c) - 48"

text \<open>
  \<^verbatim>\<open>str.strip()\<close>, \<^verbatim>\<open>str.rstrip("\n")\<close>, \<^verbatim>\<open>str.upper()\<close>, \<^verbatim>\<open>str.lower()\<close>. The capital of the
  sharp s (code 223) is the two letters SS. The capitals of the micro sign (181) and of the
  y with diaeresis (255) lie above 255; the two characters are left as they are, which no
  pattern of the scripts tells apart from their capitals.
\<close>

definition str_strip :: "string \<Rightarrow> string" where
  "str_strip s = rev (dropWhile py_isspace (rev (dropWhile py_isspace s)))"

definition rstrip_newline :: "string \<Rightarrow> string" where
  "rstrip_newline s = rev (dropWhile (\<lambda>c. c = CHR 0x0A) (rev s))"

definition upper_char :: "char \<Rightarrow> string" where
  "upper_char c =
     (if chr_between CHR ''a'' CHR ''z'' c
         \<or> (chr_between (CHR 0xE0) (CHR 0xFE) c \<and> c \<noteq> CHR 0xF7)
      then [char_of (of_char c - (32::nat))]
      else if c = CHR 0xDF then ''SS''
      else [c])"

definition str_upper :: "string \<Rightarrow> string" where
  "str_upper s = concat (map upper_char s)"

definition lower_char :: "char \<Rightarrow> char" where
  "lower_char c =
     (if chr_between CHR ''A'' CHR ''Z'' c
         \<or> (chr_between (CHR 0xC0) (CHR 0xDE) c \<and> c \<noteq> CHR 0xD7)
      then char_of (of_char c + (32::nat))
      else c)"

definition str_lower :: "string \<Rightarrow> string" where
  "str_lower s = map lower_char s"

text \<open>\<^verbatim>\<open>sep.join(parts)\<close>.\<close>

fun str_join :: "string \<Rightarrow> string list \<Rightarrow> string" where
  "str_join sep [] = []"
| "str_join sep [p] = p"
| "str_join sep (p # ps) = p @ sep @ str_join sep ps"

section \<open>Regular expressions\<close>

datatype re =
    Cls "char \<Rightarrow> bool"
  | Rep "char \<Rightarrow> bool" nat "nat option" bool
  | Seq re re
  | Alt re re
  | Eps
  | Grp nat re
  | Bol
  | Eol
  | WordB

type_synonym mstate = "nat \<times> (nat \<times> nat \<times> nat) list"

fun rmatch :: "re \<Rightarrow> string \<Rightarrow> mstate \<Rightarrow> mstate list" where
  "rmatch (Cls P) s (p, g) = (if p < length s \<and> P (s ! p) then [(Suc p, g)] else [])"
| "rmatch (Rep P lo hi greedy) s (p, g) =
     (let run = length (takeWhile P (drop p s));
          k = (case hi of None \<Rightarrow> run | Some h \<Rightarrow> min run h);
          counts = [lo..<Suc k]
      in map (\<lambda>n. (p + n, g)) (if greedy then rev counts else counts))"
| "rmatch (Seq a b) s st = concat (map (rmatch b s) (rmatch a s st))"
| "rmatch (Alt a b) s st = rmatch a s st @ rmatch b s st"
| "rmatch Eps s st = [st]"
| "rmatch (Grp n r) s (p, g) = map (\<lambda>(p', g'). (p', (n, p, p') # g')) (rmatch r s (p, g))"
| "rmatch Bol s (p, g) = (if p = 0 then [(p, g)] else [])"
| "rmatch Eol s (p, g) =
     (if p = length s \<or> (Suc p = length s \<and> s ! p = CHR 0x0A) then [(p, g)] else [])"
| "rmatch WordB s (p, g) =
     (if (0 < p \<and> re_word (s ! (p - 1))) \<noteq> (p < length s \<and> re_word (s ! p))
      then [(p, g)] else [])"

definition re_match :: "re \<Rightarrow> string \<Rightarrow> mstate option" where
  "re_match r s = (case rmatch r s (0, []) of [] \<Rightarrow> None | m # _ \<Rightarrow> Some m)"

definition re_fullmatch :: "re \<Rightarrow> string \<Rightarrow> bool" where
  "re_fullmatch r s = list_ex (\<lambda>m. fst m = length s) (rmatch r s (0, []))"

definition re_group :: "string \<Rightarrow> mstate \<Rightarrow> nat \<Rightarrow> string" where
  "re_group s m n =
     (case map_of (snd m) n of None \<Rightarrow> [] | Some (b, e) \<Rightarrow> take (e - b) (drop b s))"

text \<open>
  \<^verbatim>\<open>re.split(r, s)[0]\<close> for a pattern that matches no empty string: the text before
  the leftmost match, the whole string when there is none.
\<close>

fun split_first :: "re \<Rightarrow> string \<Rightarrow> nat \<Rightarrow> nat \<Rightarrow> string" where
  "split_first r s p 0 = (if rmatch r s (p, []) \<noteq> [] then take p s else s)"
| "split_first r s p (Suc n) =
     (if rmatch r s (p, []) \<noteq> [] then take p s else split_first r s (Suc p) n)"

definition re_split_head :: "re \<Rightarrow> string \<Rightarrow> string" where
  "re_split_head r s = split_first r s 0 (length s)"

fun seqs :: "re list \<Rightarrow> re" where
  "seqs [] = Eps"
| "seqs [r] = r"
| "seqs (r # rs) = Seq r (seqs rs)"

definition re_dot :: "char \<Rightarrow> bool" where
  "re_dot c = (c \<noteq> CHR 0x0A)"

definition upper_or_digit :: "char \<Rightarrow> bool" where
  "upper_or_digit c = (chr_between CHR ''0'' CHR ''9'' c \<or> chr_between CHR ''A'' CHR ''Z'' c)"

text \<open>\<^verbatim>\<open>[A-TV-Z][0-9][0-9A-Z](?:\.[0-9A-Z]{1,4})?\<close>\<close>

definition icd_code_re :: re where
  "icd_code_re = seqs [
     Cls (\<lambda>c. chr_between CHR ''A'' CHR ''T'' c \<or> chr_between CHR ''V'' CHR ''Z'' c),
     Cls (chr_between CHR ''0'' CHR ''9''),
     Cls upper_or_digit,
     Alt (Seq (Cls (\<lambda>c. c = CHR ''.'')) (Rep upper_or_digit 1 (Some 4) True)) Eps]"

text \<open>\<^verbatim>\<open>^[A-TV-Z][0-9][0-9A-Z](?:\.[0-9A-Z]{1,4})?$\<close>\<close>

definition icd_pattern :: re where
  "icd_pattern = seqs [Bol, icd_code_re, Eol]"

text \<open>\<^verbatim>\<open>^\d{10}$\<close>\<close>

definition ten :: re where
  "ten = seqs [Bol, Rep re_digit 10 (Some 10) True, Eol]"


text \<open>\<^verbatim>\<open>^[A-V]\d{4}$\<close>\<close>

definition hcpcs_pattern :: re where
  "hcpcs_pattern = seqs [Bol, Cls (chr_between CHR ''A'' CHR ''V''), Rep re_digit 4 (Some 4) True, Eol]"

text \<open>\<^verbatim>\<open>^\s*([A-V]\d{4})\s+(.*)$\<close>\<close>

definition hcpcs_line_re :: re where
  "hcpcs_line_re = seqs [Bol, Rep py_isspace 0 None True,
     Grp 1 (Seq (Cls (chr_between CHR ''A'' CHR ''V'')) (Rep re_digit 4 (Some 4) True)),
     Rep py_isspace 1 None True, Grp 2 (Rep re_dot 0 None True), Eol]"

text \<open>\<^verbatim>\<open>\s{2,}|\t\<close>\<close>

definition big_gap_re :: re where
  "big_gap_re = Alt (Rep py_isspace 2 None True) (Cls (\<lambda>c. c = CHR 0x09))"

text \<open>
  \<^verbatim>\<open>^\s*(\d+)\s+([A-TV-Z][0-9][0-9A-Z](?:\.[0-9A-Z]{1,4})?)\s+([01])\s+(.*?)\s{2,}(.*?)\s*$\<close>
\<close>

definition line_pat_long :: re where
  "line_pat_long = seqs [Bol, Rep py_isspace 0 None True,
     Grp 1 (Rep re_digit 1 None True), Rep py_isspace 1 None True,
     Grp 2 icd_code_re, Rep py_isspace 1 None True,
     Grp 3 (Cls (\<lambda>c. c = CHR ''0'' \<or> c = CHR ''1'')), Rep py_isspace 1 None True,
     Grp 4 (Rep re_dot 0 None False), Rep py_isspace 2 None True,
     Grp 5 (Rep re_dot 0 None False), Rep py_isspace 0 None True, Eol]"

text \<open>
  \<^verbatim>\<open>^\s*(\d+)\s+([A-TV-Z][0-9][0-9A-Z](?:\.[0-9A-Z]{1,4})?)\s+([01])\s+(.*\S)\s*$\<close>
\<close>

definition line_pat_short :: re where
  "line_pat_short = seqs [Bol, Rep py_isspace 0 None True,
     Grp 1 (Rep re_digit 1 None True), Rep py_isspace 1 None True,
     Grp 2 icd_code_re, Rep py_isspace 1 None True,
     Grp 3 (Cls (\<lambda>c. c = CHR ''0'' \<or> c = CHR ''1'')), Rep py_isspace 1 None True,
     Grp 4 (Seq (Rep re_dot 0 None True) (Cls (\<lambda>c. \<not> py_isspace c))),
     Rep py_isspace 0 None True, Eol]"

text \<open>\<^verbatim>\<open>^([A-TV-Z][0-9][0-9A-Z](?:\.[0-9A-Z]{1,4})?)\b\<close>\<close>

definition title_code_re :: re where
  "title_code_re = seqs [Bol, Grp 1 icd_code_re, WordB]"

text \<open>\<^verbatim>\<open>^[A-TV-Z][0-9][0-9A-Z](?:\.[0-9A-Z]{1,4})?\b[:\s-]*\<close>\<close>

definition leading_code_re :: re where
  "leading_code_re = seqs [Bol, icd_code_re, WordB,
      Rep (\<lambda>c. c = CHR '':'' \<or> py_isspace c \<or> c = CHR ''-'') 0 None True]"

section \<open>Errors, the clock, frames\<close>

datatype py_error =
    FileNotFoundError | KeyError | RuntimeError | ValueError | AttributeError
  | ReadCsvError \<comment> \<open>any exception of \<^verbatim>\<open>pandas.read_csv\<close>\<close>

record datetime =
  dt_year :: nat
  dt_month :: nat
  dt_day :: nat
  dt_hour :: nat
  dt_minute :: nat
  dt_second :: nat

definition digit_chr :: "nat \<Rightarrow> char" where
  "digit_chr n = char_of (48 + n mod 10)"

definition pad2 :: "nat \<Rightarrow> string" where
  "pad2 n = [digit_chr (n div 10), digit_chr n]"

definition pad4 :: "nat \<Rightarrow> string" where
  "pad4 n = [digit_chr (n div 1000), digit_chr (n div 100), digit_chr (n div 10), digit_chr n]"

text \<open>\<^verbatim>\<open>strftime("%Y-%m-%dT%H:%M:%SZ")\<close>, for a year of four digits.\<close>

definition strftime_iso :: "datetime \<Rightarrow> string" where
  "strftime_iso t =
     pad4 (dt_year t) @ ''-'' @ pad2 (dt_month t) @ ''-'' @ pad2 (dt_day t) @ ''T''
     @ pad2 (dt_hour t) @ '':'' @ pad2 (dt_minute t) @ '':'' @ pad2 (dt_second t) @ ''Z''"

type_synonym cell = "string option"

record dataframe =
  columns :: "string list"
  body :: "cell list list"

text \<open>
  \<^verbatim>\<open>astype(str)\<close> and \<^verbatim>\<open>fillna("")\<close> on one cell. In pandas 2, which is followed here,
  \<^verbatim>\<open>astype(str)\<close> makes the text \<open>nan\<close> of a missing cell.
\<close>

definition astype_str :: "cell \<Rightarrow> string" where
  "astype_str v = (case v of None \<Rightarrow> ''nan'' | Some s \<Rightarrow> s)"

definition fillna_empty :: "cell \<Rightarrow> cell" where
  "fillna_empty v = (case v of None \<Rightarrow> Some [] | Some s \<Rightarrow> Some s)"

fun index_of :: "'a list \<Rightarrow> 'a \<Rightarrow> nat option" where
  "index_of [] x = None"
| "index_of (y # ys) x = (if y = x then Some 0 else map_option Suc (index_of ys x))"

definition cell_at :: "cell list \<Rightarrow> nat \<Rightarrow> cell" where
  "cell_at r i = (if i < length r then r ! i else None)"

text \<open>
  \<^verbatim>\<open>df[c]\<close> for a label \<open>c\<close> of the frame (the callers test \<^verbatim>\<open>c in df.columns\<close> first, or
  take \<open>c\<close> from \<^verbatim>\<open>df.columns\<close>). Labels are taken to be distinct, as pandas' reader makes
  them; a row shorter than the header reads as missing values.
\<close>

definition column :: "dataframe \<Rightarrow> string \<Rightarrow> cell list" where
  "column df c =
     (case index_of (columns df) c of None \<Rightarrow> [] | Some i \<Rightarrow> map (\<lambda>r. cell_at r i) (body df))"

text \<open>\<^verbatim>\<open>df.columns = df.columns.str.strip()\<close>\<close>

definition strip_columns :: "dataframe \<Rightarrow> dataframe" where
  "strip_columns df = df\<lparr>columns := map str_strip (columns df)\<rparr>"

text \<open>\<^verbatim>\<open>Series.mean()\<close> of booleans and of lengths; \<open>None\<close> is NaN.\<close>

definition mean_bool :: "bool list \<Rightarrow> rat option" where
  "mean_bool bs = (if bs = [] then None
                   else Some (of_nat (length (filter (\<lambda>b. b) bs)) / of_nat (length bs)))"

definition mean_nat :: "nat list \<Rightarrow> rat option" where
  "mean_nat ns = (if ns = [] then None else Some (of_nat (sum_list ns) / of_nat (length ns)))"

text \<open>\<^verbatim>\<open>a > b\<close> on floats: false when either side is NaN.\<close>

definition float_gt :: "rat option \<Rightarrow> rat option \<Rightarrow> bool" where
  "float_gt a b = (case (a, b) of (Some x, Some y) \<Rightarrow> x > y | _ \<Rightarrow> False)"

text \<open>\<^verbatim>\<open>next((c for c in candidates if c in cols), None)\<close>\<close>

definition first_present :: "string list \<Rightarrow> string list \<Rightarrow> string option" where
  "first_present candidates cols = find (\<lambda>c. c \<in> set cols) candidates"

text \<open>\<^verbatim>\<open>not x\<close> for \<open>x\<close> a string or \<^verbatim>\<open>None\<close>.\<close>

definition py_not :: "string option \<Rightarrow> bool" where
  "py_not x = (case x of None \<Rightarrow> True | Some s \<Rightarrow> s = [])"

text \<open>
  The scan \<^verbatim>\<open>best, rate = None, 0.0; for c in cols: r = score(c); if r > rate: best, rate = c, r\<close>.
\<close>

fun scan_best :: "(string \<Rightarrow> rat option) \<Rightarrow> string list \<Rightarrow> string option \<times> rat \<Rightarrow> string option \<times> rat" where
  "scan_best score [] (best, rate) = (best, rate)"
| "scan_best score (c # cs) (best, rate) =
     (case score c of
        None \<Rightarrow> scan_best score cs (best, rate)
      | Some r \<Rightarrow> if r > rate then scan_best score cs (Some c, r) else scan_best score cs (best, rate))"

text \<open>
  The choice of a code column, which the source writes out three times
  (\<^verbatim>\<open>_detect_columns\<close>, \<^verbatim>\<open>clean_npi_data\<close>, \<^verbatim>\<open>clean_icd10cm_data\<close>):
  \<^verbatim>\<open>col = next((c for c in candidates if c in cols), None)\<close>, then, under \<^verbatim>\<open>if not col:\<close>,
  the scan and \<^verbatim>\<open>col = best\<close>.
\<close>

definition detect_column :: "string list \<Rightarrow> (string \<Rightarrow> rat option) \<Rightarrow> string list \<Rightarrow> string option" where
  "detect_column candidates score cols =
     (let col = first_present candidates cols
      in if py_not col then fst (scan_best score cols (None, 0)) else col)"

text \<open>\<^verbatim>\<open>max(candidates, key=score)\<close> on a non-empty list: the first maximum.\<close>

fun max_loop :: "(string \<Rightarrow> rat option) \<Rightarrow> string list \<Rightarrow> string \<Rightarrow> string" where
  "max_loop score [] best = best"
| "max_loop score (c # cs) best =
     (if float_gt (score c) (score best) then max_loop score cs c else max_loop score cs best)"

text \<open>
  \<^verbatim>\<open>drop_duplicates("code")\<close> on rows that start with the code: the first row of each code
  stays. \<open>seen\<close> holds the codes met so far.
\<close>

fun drop_duplicates :: "('k \<times> 'v) list \<Rightarrow> 'k list \<Rightarrow> ('k \<times> 'v) list" where
  "drop_duplicates [] seen = []"
| "drop_duplicates (r # rs) seen =
     (if fst r \<in> set seen then drop_duplicates rs seen else r # drop_duplicates rs (fst r # seen))"

text \<open>The frame of the columns code and description.\<close>

definition frame_of_pairs :: "(string \<times> string) list \<Rightarrow> dataframe" where
  "frame_of_pairs ps = \<lparr>columns = [''code'', ''description''],
                        body = map (\<lambda>(c, d). [Some c, Some d]) ps\<rparr>"

text \<open>\<^verbatim>\<open>df[name] = value\<close> for a scalar: the column is replaced, or added as the last one.\<close>

definition pad_row :: "nat \<Rightarrow> cell list \<Rightarrow> cell list" where
  "pad_row n r = take n (r @ replicate n None)"

definition set_column :: "string \<Rightarrow> string \<Rightarrow> dataframe \<Rightarrow> dataframe" where
  "set_column name v df =
     (case index_of (columns df) name of
        Some i \<Rightarrow> df\<lparr>body := map (\<lambda>r. (pad_row (length (columns df)) r)[i := Some v]) (body df)\<rparr>
      | None \<Rightarrow> \<lparr>columns = columns df @ [name],
                 body = map (\<lambda>r. pad_row (length (columns df)) r @ [Some v]) (body df)\<rparr>)"

section \<open>utils/common\_functions.py\<close>

definition now_utc_iso :: "datetime \<Rightarrow> string" where
  "now_utc_iso now = strftime_iso now"

definition validate_code_format :: "string list \<Rightarrow> re \<Rightarrow> bool list" where
  "validate_code_format series pattern = map (re_fullmatch pattern) series"

text \<open>
  \<^verbatim>\<open>Path(base_filename).with_suffix(".csv")\<close> on POSIX paths: the components of the path
  (empty ones and single dots dropped), its root, and the last component with its suffix
  replaced. A path without a last component raises \<^verbatim>\<open>ValueError\<close>.
\<close>

fun split_on :: "char \<Rightarrow> string \<Rightarrow> string \<Rightarrow> string list" where
  "split_on sep [] acc = [rev acc]"
| "split_on sep (c # cs) acc =
     (if c = sep then rev acc # split_on sep cs [] else split_on sep cs (c # acc))"

definition path_parts :: "string \<Rightarrow> string list" where
  "path_parts p = filter (\<lambda>part. part \<noteq> [] \<and> part \<noteq> ''.'') (split_on CHR ''/'' p [])"

definition path_root :: "string \<Rightarrow> string" where
  "path_root p = (if take 2 p = ''//'' \<and> take 3 p \<noteq> ''///'' then ''//''
                  else if take 1 p = ''/'' then ''/'' else [])"

definition path_suffix :: "string \<Rightarrow> string" where
  "path_suffix name =
     (case index_of (rev name) CHR ''.'' of
        None \<Rightarrow> []
      | Some j \<Rightarrow> (let i = length name - Suc j in
                   if 0 < i \<and> i < length name - 1 then drop i name else []))"

definition with_suffix_csv :: "string \<Rightarrow> py_error + string" where
  "with_suffix_csv base_filename =
     (let parts = path_parts base_filename in
      if parts = [] then Inl ValueError
      else
        let name = last parts;
            stem = take (length name - length (path_suffix name)) name
        in Inr (path_root base_filename @ str_join ''/'' (butlast parts @ [stem @ ''.csv''])))"

record csv_file =
  csv_path :: string
  csv_header :: "string list"
  csv_rows :: "cell list list"

text \<open>\<^verbatim>\<open>df[cols]\<close> for labels of the frame, and \<^verbatim>\<open>to_csv(path, index=False)\<close>.\<close>

definition select_columns :: "dataframe \<Rightarrow> string list \<Rightarrow> dataframe" where
  "select_columns df cols =
     \<lparr>columns = cols,
      body = map (\<lambda>r. map (\<lambda>c. case index_of (columns df) c of None \<Rightarrow> None
                                    | Some i \<Rightarrow> cell_at r i) cols) (body df)\<rparr>"

definition to_csv :: "dataframe \<Rightarrow> string \<Rightarrow> csv_file" where
  "to_csv df path = \<lparr>csv_path = path, csv_header = columns df, csv_rows = body df\<rparr>"

definition save_to_formats :: "dataframe \<Rightarrow> string \<Rightarrow> py_error + csv_file" where
  "save_to_formats df base_filename =
     (case with_suffix_csv base_filename of
        Inl e \<Rightarrow> Inl e
      | Inr path \<Rightarrow>
          (let cols = filter (\<lambda>c. c \<in> set (columns df)) [''code'', ''description'', ''last_updated'']
           in Inr (to_csv (select_columns df cols) path)))"

section \<open>NPI: the check digit\<close>

text \<open>
  \<^verbatim>\<open>is_valid_npi\<close> of \<^verbatim>\<open>npi_processor.py\<close>; \<^verbatim>\<open>rxnorm_processor.py\<close> holds the same
  text. \<open>luhn_loop\<close> is its \<^verbatim>\<open>for ch in reversed(base)\<close> loop, with the running total
  and the flag \<^verbatim>\<open>dbl\<close> as arguments.
\<close>

fun luhn_loop :: "string \<Rightarrow> int \<Rightarrow> bool \<Rightarrow> int" where
  "luhn_loop [] tot dbl = tot"
| "luhn_loop (ch # rest) tot dbl =
     (let d = int_of_digit ch;
          d = (if dbl then (let d = d * 2 in if d > 9 then d - 9 else d) else d)
      in luhn_loop rest (tot + d) (\<not> dbl))"

definition is_valid_npi :: "string \<Rightarrow> bool" where
  "is_valid_npi npi =
     (let s = filter re_digit npi in
      if length s \<noteq> 10 \<or> \<not> str_isdigit s then False
      else
        let base = ''80840'' @ butlast s;
            tot = luhn_loop (rev base) 0 True;
            check = (10 - (tot mod 10)) mod 10
        in check = int_of_digit (last s))"

subsection \<open>The rule in the specification's words\<close>

text \<open>
  Doubling every second digit from the rightmost one, subtracting 9 from a doubled value
  above 9, summing; the check digit is \<open>(10 - sum mod 10) mod 10\<close>. Position 0 is the
  rightmost digit.
\<close>

definition luhn_double :: "int \<Rightarrow> int" where
  "luhn_double d = (if 2 * d > 9 then 2 * d - 9 else 2 * d)"

definition luhn_sum :: "int list \<Rightarrow> int" where
  "luhn_sum ds =
     (\<Sum>i\<leftarrow>[0..<length ds]. if even i then luhn_double (rev ds ! i) else rev ds ! i)"

definition luhn_check_digit :: "int list \<Rightarrow> int" where
  "luhn_check_digit ds = (10 - (luhn_sum ds mod 10)) mod 10"

definition npi_spec :: "string \<Rightarrow> bool" where
  "npi_spec npi =
     (let ds = filter re_digit npi in
      length ds = 10 \<and>
      luhn_check_digit (map int_of_digit (''80840'' @ take 9 ds)) = int_of_digit (ds ! 9))"

definition luhn_weight :: "nat \<Rightarrow> int \<Rightarrow> int" where
  "luhn_weight i d = (if even i then luhn_double d else d)"

section \<open>scripts/npi\_processor.py\<close>

definition NPI_CANDIDATES :: "string list" where
  "NPI_CANDIDATES = [''NPI'', ''npi'', ''Npi'']"

definition ORG_COLS :: "string list" where
  "ORG_COLS = [''Provider Organization Name (Legal Business Name)'',
               ''Provider Organization Name'',
               ''provider_organization_name_legal_business_name'',
               ''Org Name'']"

definition NAME_COLS :: "string list" where
  "NAME_COLS = [''Provider Name Prefix Text'',
                ''Provider First Name'',
                ''Provider Middle Name'',
                ''Provider Last Name (Legal Name)'',
                ''Provider Name Suffix Text'']"

text \<open>\<^verbatim>\<open>df[c].astype(str).str.strip().str.fullmatch(ten).mean()\<close>\<close>

definition ten_digit_rate :: "dataframe \<Rightarrow> string \<Rightarrow> rat option" where
  "ten_digit_rate df c =
     mean_bool (map (\<lambda>v. re_fullmatch ten (str_strip (astype_str v))) (column df c))"

text \<open>
  The choice of the NPI column, as \<^verbatim>\<open>_detect_columns\<close> and \<^verbatim>\<open>clean_npi_data\<close> both
  write it: the first candidate that is a label of the frame, else the scan of all columns
  for the highest rate of 10-digit values.
\<close>

definition npi_column :: "dataframe \<Rightarrow> string option" where
  "npi_column df = detect_column NPI_CANDIDATES (ten_digit_rate df) (columns df)"

text \<open>
  \<^verbatim>\<open>_detect_columns\<close>. Its argument is the file as \<^verbatim>\<open>read_csv(path, dtype=str)\<close> reads it;
  the function reads the header (\<^verbatim>\<open>nrows=0\<close>) and, for the scan, the first 5000 rows, and
  strips the labels of both.
\<close>

definition detect_columns ::
  "dataframe \<Rightarrow> py_error + (string \<times> string option \<times> string list \<times> string list)" where
  "detect_columns file =
     (let header = strip_columns (file\<lparr>body := []\<rparr>);
          cols = columns header;
          sample = strip_columns (file\<lparr>body := take 5000 (body file)\<rparr>);
          npi_col = npi_column sample
      in if py_not npi_col then Inl KeyError
         else
           (let org_col = first_present ORG_COLS cols;
                name_cols_present = filter (\<lambda>c. c \<in> set cols) NAME_COLS;
                usecols = [the npi_col] @ (if py_not org_col then [] else [the org_col])
                          @ name_cols_present
            in Inr (the npi_col, org_col, name_cols_present, usecols)))"

text \<open>
  \<^verbatim>\<open>" ".join([s for s in (str(x).strip() for x in row) if s])\<close> on the cells of one row.
\<close>

definition join_name_parts :: "cell list \<Rightarrow> string" where
  "join_name_parts cells =
     str_join '' '' (filter (\<lambda>s. s \<noteq> []) (map (\<lambda>x. str_strip (astype_str x)) cells))"

text \<open>
  The steps "validate + clean" that both NPI scripts share, in the source's order, on the
  pairs of the frame \<^verbatim>\<open>out\<close>; then the time stamp. On a frame without rows
  \<^verbatim>\<open>out["code"].apply(is_valid_npi)\<close> is an empty series of objects, the selection by it
  leaves \<^verbatim>\<open>out\<close> without columns, and \<^verbatim>\<open>out["description"]\<close> on the next line raises
  \<^verbatim>\<open>KeyError\<close>.
\<close>

definition npi_records :: "(string \<times> string) list \<Rightarrow> (string \<times> string) list" where
  "npi_records out =
     (let out = filter (\<lambda>(code, description). is_valid_npi code) out;
          out = filter (\<lambda>(code, description). description \<noteq> []) out
      in drop_duplicates out [])"

definition npi_validate :: "datetime \<Rightarrow> (string \<times> string) list \<Rightarrow> py_error + dataframe" where
  "npi_validate now out =
     (if out = [] then Inl KeyError
      else Inr (set_column ''last_updated'' (now_utc_iso now) (frame_of_pairs (npi_records out))))"

definition clean_npi_data :: "datetime \<Rightarrow> dataframe \<Rightarrow> py_error + dataframe" where
  "clean_npi_data now raw_data =
     (let df = raw_data;
          npi_col = npi_column df
      in if py_not npi_col then Inl KeyError
         else
           (let org_col = first_present ORG_COLS (columns df);
                name_cols_present = filter (\<lambda>c. c \<in> set (columns df)) NAME_COLS;
                desc =
                  (if \<not> py_not org_col then map astype_str (column df (the org_col))
                   else if name_cols_present \<noteq> [] then
                     map (\<lambda>r. join_name_parts
                            (map (\<lambda>c. fillna_empty (cell_at r (the (index_of (columns df) c))))
                               name_cols_present))
                       (body df)
                   else map (\<lambda>r. []) (body df));
                out = zip (map (\<lambda>v. str_strip (astype_str v)) (column df (the npi_col)))
                          (map str_strip desc)
            in npi_validate now out))"


section \<open>scripts/rxnorm\_processor.py\<close>




section \<open>scripts/icd10cm\_processor.py\<close>

text \<open>One line of the fixed-width file: the row it gives, if any.\<close>

definition parse_order_line :: "string \<Rightarrow> (string \<times> string \<times> string \<times> string \<times> string) option" where
  "parse_order_line raw =
     (let s = rstrip_newline raw in
      if str_strip s = [] then None
      else
        (case re_match line_pat_long s of
           Some m \<Rightarrow>
             Some (str_strip (re_group s m 1), str_upper (str_strip (re_group s m 2)),
                   str_strip (re_group s m 3), str_strip (re_group s m 4),
                   str_strip (re_group s m 5))
         | None \<Rightarrow>
             (case re_match line_pat_short s of
                None \<Rightarrow> None
              | Some m2 \<Rightarrow>
                  Some (str_strip (re_group s m2 1), str_upper (str_strip (re_group s m2 2)),
                        str_strip (re_group s m2 3), str_strip (re_group s m2 4),
                        str_strip (re_group s m2 4)))))"

definition fixed_width_rows :: "string list \<Rightarrow> (string \<times> string \<times> string \<times> string \<times> string) list" where
  "fixed_width_rows file_lines = List.map_filter parse_order_line file_lines"

definition fixed_width_frame :: "(string \<times> string \<times> string \<times> string \<times> string) list \<Rightarrow> dataframe" where
  "fixed_width_frame rows =
     \<lparr>columns = [''Order'', ''ICD-10-CM Code'', ''Valid'', ''Short Description'', ''Long Description''],
      body = map (\<lambda>(order, code, valid, short_desc, long_desc).
                    [Some order, Some code, Some valid, Some short_desc, Some long_desc]) rows\<rparr>"

text \<open>The fixed-width path of the loader, from the comment "fixed-width / space-padded order file" on.\<close>

definition fixed_width_load :: "string list \<Rightarrow> py_error + dataframe" where
  "fixed_width_load file_lines =
     (let rows = fixed_width_rows file_lines in
      if rows = [] then Inl RuntimeError else Inr (fixed_width_frame rows))"

text \<open>
  \<^verbatim>\<open>load_icd10cm_data\<close>. The file system and pandas are parameters: whether the path
  exists, what \<^verbatim>\<open>read_csv(path, sep="\t", ...)\<close> and \<^verbatim>\<open>read_csv(path, sep=",", ...)\<close> do
  on the file (\<open>None\<close> when the call raises, else the frame, its first row read as the
  header, which is the default of \<^verbatim>\<open>read_csv\<close>), and the lines of the file. The second
  call sits in the \<^verbatim>\<open>except\<close> branch of the first; what it raises leaves the function.
\<close>

definition load_icd10cm_data ::
  "bool \<Rightarrow> dataframe option \<Rightarrow> dataframe option \<Rightarrow> string list \<Rightarrow> py_error + dataframe" where
  "load_icd10cm_data path_exists read_tab read_comma file_lines =
     (if \<not> path_exists then Inl FileNotFoundError
      else
        (case (case read_tab of Some df \<Rightarrow> Some df | None \<Rightarrow> read_comma) of
           None \<Rightarrow> Inl ReadCsvError
         | Some df \<Rightarrow>
             if length (columns df) > 1 then Inr (strip_columns df)
             else fixed_width_load file_lines))"

text \<open>\<^verbatim>\<open>df[c].astype(str).str.strip().str.upper().str.fullmatch(icd_pattern).mean()\<close>\<close>

definition icd_rate :: "dataframe \<Rightarrow> string \<Rightarrow> rat option" where
  "icd_rate df c =
     mean_bool (map (\<lambda>v. re_fullmatch icd_pattern (str_upper (str_strip (astype_str v))))
                  (column df c))"

text \<open>\<^verbatim>\<open>df[c].astype(str).str.len().mean()\<close>\<close>

definition text_length_mean :: "dataframe \<Rightarrow> string \<Rightarrow> rat option" where
  "text_length_mean df c = mean_nat (map (\<lambda>v. length (astype_str v)) (column df c))"

text \<open>The two column choices of \<^verbatim>\<open>clean_icd10cm_data\<close>.\<close>

definition icd_code_col :: "dataframe \<Rightarrow> string option" where
  "icd_code_col df =
     detect_column [''ICD-10-CM Code'', ''ICD-10-CM'', ''Code'', ''code'', ''icd10cm'']
       (icd_rate df) (columns df)"

definition icd_desc_col :: "dataframe \<Rightarrow> string option \<Rightarrow> string option" where
  "icd_desc_col df code_col =
     (let desc_col = first_present [''Long Description'', ''Description'', ''Title'',
                                    ''Short Description'', ''short_description'', ''long_description'']
                       (columns df)
      in if py_not desc_col then
           (case filter (\<lambda>c. Some c \<noteq> code_col) (columns df) of
              [] \<Rightarrow> desc_col
            | c # cs \<Rightarrow> Some (max_loop (text_length_mean df) cs c))
         else desc_col)"

text \<open>
  \<^verbatim>\<open>clean_icd10cm_data\<close>. When both choices are one column, the dictionary of
  \<^verbatim>\<open>rename\<close> has one key, no column is called code, and \<^verbatim>\<open>small["code"]\<close> raises.
\<close>

definition icd_records :: "(cell \<times> cell) list \<Rightarrow> (string \<times> string) list" where
  "icd_records small =
     (let small = map (\<lambda>(code, description).
                         (str_upper (str_strip (astype_str code)),
                          str_strip (astype_str description))) small;
          mask = validate_code_format (map fst small) icd_pattern;
          small = map snd (filter (\<lambda>(m, (code, description)). m \<and> description \<noteq> [])
                             (zip mask small))
      in drop_duplicates small [])"

definition clean_icd10cm_data :: "datetime \<Rightarrow> dataframe \<Rightarrow> py_error + dataframe" where
  "clean_icd10cm_data now raw_data =
     (let df = raw_data;
          code_col = icd_code_col df;
          desc_col = icd_desc_col df code_col
      in if py_not code_col \<or> py_not desc_col then Inl KeyError
         else if code_col = desc_col then Inl KeyError
         else
           (let small = zip (column df (the code_col)) (column df (the desc_col))
            in Inr (set_column ''last_updated'' (now_utc_iso now)
                      (frame_of_pairs (icd_records small)))))"


section \<open>scripts/icd10who\_processor.py\<close>

datatype element =
  Element (el_tag: string) (el_attrib: "(string \<times> string) list") (el_text: "string option")
          (el_children: "element list")

text \<open>\<^verbatim>\<open>root.iter()\<close>: the element and its descendants, in document order.\<close>

fun iter :: "element \<Rightarrow> element list" where
  "iter (Element t a x cs) = Element t a x cs # concat (map iter cs)"

text \<open>\<^verbatim>\<open>tag.split('}', 1)[-1]\<close>\<close>

definition strip_ns :: "string \<Rightarrow> string" where
  "strip_ns tag = (if CHR 0x7D \<in> set tag then tl (dropWhile (\<lambda>c. c \<noteq> CHR 0x7D) tag) else tag)"

definition remove_leading_code :: "string \<Rightarrow> string" where
  "remove_leading_code txt =
     str_strip (case re_match leading_code_re txt of None \<Rightarrow> txt | Some m \<Rightarrow> drop (fst m) txt)"

definition DESC_TAGS :: "string list" where
  "DESC_TAGS = [''title'', ''name'', ''desc'', ''label'', ''definition'', ''rubric'', ''text'', ''caption'']"

text \<open>The loop over \<^verbatim>\<open>el.attrib.items()\<close>; \<open>None\<close> is the initial \<^verbatim>\<open>code = None\<close>.\<close>

fun attrib_code :: "(string \<times> string) list \<Rightarrow> string option" where
  "attrib_code [] = None"
| "attrib_code ((k, v) # rest) =
     (let v = str_strip v in
      if re_fullmatch icd_pattern v \<and> str_lower (strip_ns k) \<in> set [''code'', ''id'', ''codeid'', ''icdcode'']
      then Some (str_upper v)
      else attrib_code rest)"

text \<open>The loop over the children that looks for a code at the start of a title.\<close>

fun child_code :: "element list \<Rightarrow> string option" where
  "child_code [] = None"
| "child_code (child # rest) =
     (let tag = str_lower (strip_ns (el_tag child)) in
      if tag \<in> set [''title'', ''name'', ''desc'', ''label''] then
        (let t = str_strip (case el_text child of None \<Rightarrow> [] | Some x \<Rightarrow> x) in
         case re_match title_code_re t of
           Some m \<Rightarrow> Some (str_upper (re_group t m 1))
         | None \<Rightarrow> child_code rest)
      else child_code rest)"

text \<open>The loop over the children that looks for the description; \<open>desc\<close> is its variable.\<close>

fun child_desc :: "element list \<Rightarrow> string \<Rightarrow> string" where
  "child_desc [] desc = desc"
| "child_desc (child # rest) desc =
     (let tag = str_lower (strip_ns (el_tag child)) in
      if tag \<in> set DESC_TAGS then
        (let t = str_strip (case el_text child of None \<Rightarrow> [] | Some x \<Rightarrow> x) in
         if t \<noteq> [] then
           (let desc = remove_leading_code t in
            if desc \<noteq> [] then desc else child_desc rest desc)
         else child_desc rest desc)
      else child_desc rest desc)"

text \<open>The body of \<^verbatim>\<open>for el in root.iter()\<close>: the row the element adds, if any.\<close>

definition extract_row :: "element \<Rightarrow> (string \<times> string) option" where
  "extract_row el =
     (let code = attrib_code (el_attrib el);
          code = (if py_not code then child_code (el_children el) else code)
      in if py_not code then None
         else
           (let desc = child_desc (el_children el) [];
                desc = (if desc = [] then
                          remove_leading_code
                            (str_strip (case el_text el of None \<Rightarrow> [] | Some x \<Rightarrow> x))
                        else desc)
            in if desc \<noteq> [] then Some (the code, desc) else None))"

definition extract_rows :: "element \<Rightarrow> (string \<times> string) list" where
  "extract_rows xml_root = List.map_filter extract_row (iter xml_root)"

text \<open>
  The module from \<^verbatim>\<open>df = pd.DataFrame(rows).drop_duplicates("code")\<close> on. Without rows the
  frame has no column, and \<^verbatim>\<open>df["code"]\<close> raises.
\<close>

definition who_records :: "(string \<times> string) list \<Rightarrow> (string \<times> string) list" where
  "who_records rows =
     (let df = drop_duplicates rows [];
          df = filter (\<lambda>(code, description). re_fullmatch icd_pattern code) df
      in filter (\<lambda>(code, description). str_strip description \<noteq> []) df)"

definition icd10who_script :: "datetime \<Rightarrow> element \<Rightarrow> py_error + csv_file" where
  "icd10who_script now xml_root =
     (let rows = extract_rows xml_root in
      if rows = [] then Inl KeyError
      else
        (let df = frame_of_pairs (who_records rows);
             df = set_column ''last_updated'' (strftime_iso now) df;
             df = set_column ''last_updated'' ''2025-09-03'' df
         in Inr (to_csv df ''output/csv/icd10who_latest.csv'')))"

section \<open>scripts/hcpcs\_processor.py\<close>

text \<open>The body of \<^verbatim>\<open>for line in f\<close>: the row the line adds, if any.\<close>

definition hcpcs_line :: "string \<Rightarrow> (string \<times> string) option" where
  "hcpcs_line line =
     (let s = rstrip_newline line in
      case re_match hcpcs_line_re s of
        None \<Rightarrow> None
      | Some m \<Rightarrow>
          (let code = re_group s m 1;
               rest = re_group s m 2;
               desc = (if str_strip rest \<noteq> [] then re_split_head big_gap_re (str_strip rest) else [])
           in if desc \<noteq> [] then Some (code, desc) else None))"

text \<open>The rows read, then the lines under "simple validation: HCPCS pattern".\<close>

definition hcpcs_records :: "string list \<Rightarrow> (string \<times> string) list" where
  "hcpcs_records file_lines =
     (let rows = List.map_filter hcpcs_line file_lines;
          hcpc = filter (\<lambda>(code, description). re_fullmatch hcpcs_pattern code) rows;
          hcpc = map (\<lambda>(code, description). (code, str_strip description)) hcpc
      in drop_duplicates (filter (\<lambda>(code, description). description \<noteq> []) hcpc) [])"

definition hcpcs_script :: "datetime \<Rightarrow> string list \<Rightarrow> py_error + csv_file" where
  "hcpcs_script now file_lines =
     (let hcpc = frame_of_pairs (hcpcs_records file_lines);
          hcpc = set_column ''last_updated'' ''2025-09-05'' hcpc;
          hcpc = set_column ''last_updated'' (now_utc_iso now) hcpc
      in save_to_formats hcpc ''output/csv/hcpcs_latest'')"

section \<open>scripts/snomed\_processor.py\<close>






section \<open>scripts/loinc\_processor.py\<close>

text \<open>\<^verbatim>\<open>df.rename(columns={old: new, ...})\<close>\<close>

definition rename_columns :: "(string \<times> string) list \<Rightarrow> dataframe \<Rightarrow> dataframe" where
  "rename_columns m df =
     df\<lparr>columns := map (\<lambda>c. case map_of m c of None \<Rightarrow> c | Some c' \<Rightarrow> c') (columns df)\<rparr>"

text \<open>
  The module, from the frame that \<^verbatim>\<open>read_csv("input/Loinc.csv", dtype=str)\<close> returns. The
  attribute reads \<^verbatim>\<open>loinc.LOINC_NUM\<close> and \<^verbatim>\<open>loinc.LONG_COMMON_NAME\<close> raise when the column is
  missing. The result is the file that \<^verbatim>\<open>save_to_formats\<close> writes.
\<close>

definition loinc_script :: "dataframe \<Rightarrow> py_error + csv_file" where
  "loinc_script file =
     (let loinc = strip_columns file in
      if ''LOINC_NUM'' \<notin> set (columns loinc) \<or> ''LONG_COMMON_NAME'' \<notin> set (columns loinc)
      then Inl AttributeError
      else
        (let list_cols = [''LOINC_NUM'', ''LONG_COMMON_NAME''];
             loinc_small = select_columns loinc list_cols;
             loinc_small = set_column ''last_updated'' ''2025-09-03'' loinc_small;
             loinc_small = rename_columns [(''LOINC_NUM'', ''code''),
                                           (''LONG_COMMON_NAME'', ''description'')] loinc_small
         in save_to_formats loinc_small ''output/csv/loinc_latest''))"

section \<open>Properties of the written files\<close>

text \<open>The column of a written file, by its header.\<close>

definition written_column :: "csv_file \<Rightarrow> string \<Rightarrow> cell list" where
  "written_column f c = column \<lparr>columns = csv_header f, body = csv_rows f\<rparr> c"




text \<open>The values of last\_updated that a run persists; none when the run fails.\<close>

definition last_updated_of :: "py_error + csv_file \<Rightarrow> cell list" where
  "last_updated_of r = (case r of Inl e \<Rightarrow> [] | Inr f \<Rightarrow> written_column f ''last_updated'')"

text \<open>
  A UTC time stamp in ISO 8601 with seconds and the suffix Z: four digits, a dash, two
  digits, a dash, two digits, T, and the time with colons, then Z.
\<close>

definition iso_utc_z :: "string \<Rightarrow> bool" where
  "iso_utc_z s =
     list_all2 (\<lambda>t c. if t = CHR ''d'' then re_digit c else c = t) ''dddd-dd-ddTdd:dd:ddZ'' s"

text \<open>The frame with the three standard columns, every row stamped with \<open>v\<close>.\<close>

definition std_frame :: "string \<Rightarrow> (string \<times> string) list \<Rightarrow> dataframe" where
  "std_frame v ps = \<lparr>columns = [''code'', ''description'', ''last_updated''],
                     body = map (\<lambda>(c, d). [Some c, Some d, Some v]) ps\<rparr>"

text \<open>A reading of the clock, for the worked examples: 12 September 2025, 14:30:00 UTC.\<close>

definition clock_example :: datetime where
  "clock_example = \<lparr>dt_year = 2025, dt_month = 9, dt_day = 12,
                     dt_hour = 14, dt_minute = 30, dt_second = 0\<rparr>"

text \<open>A LOINC table of two rows with one code, the second without a name.\<close>

definition loinc_example :: dataframe where
  "loinc_example = \<lparr>columns = [''LOINC_NUM'', ''LONG_COMMON_NAME''],
                     body = [[Some ''1-8'', Some ''Weight''], [Some ''1-8'', None]]\<rparr>"

text \<open>
  The column \<open>c\<close> is the first of maximum score in \<open>cols\<close>: it has a score, every column
  before it scores strictly less, and no column after it scores more. (A column without
  a score, the NaN of an empty frame, counts as less.)
\<close>

definition first_maximum :: "(string \<Rightarrow> rat option) \<Rightarrow> string list \<Rightarrow> string \<Rightarrow> bool" where
  "first_maximum score cols c =
     (case (index_of cols c, score c) of
        (Some i, Some r) \<Rightarrow>
          list_all (\<lambda>c'. case score c' of None \<Rightarrow> True | Some s \<Rightarrow> s < r) (take i cols)
          \<and> list_all (\<lambda>c'. case score c' of None \<Rightarrow> True | Some s \<Rightarrow> s \<le> r) (drop (Suc i) cols)
      | _ \<Rightarrow> False)"

section \<open>Properties of the NPI check digit\<close>

lemma luhn_loop_sum:
  "luhn_loop xs tot dbl =
     tot + (\<Sum>i\<leftarrow>[0..<length xs].
        if even i = dbl then luhn_double (int_of_digit (xs ! i)) else int_of_digit (xs ! i))"
proof (induction xs arbitrary: tot dbl)
  case Nil
  show ?case by simp
next
  case (Cons ch rest)
  have shift: "[0..<length (ch # rest)] = 0 # map Suc [0..<length rest]"
    by (simp add: upt_conv_Cons map_Suc_upt del: upt_Suc)
  show ?case
    unfolding shift
    by (cases dbl) (simp_all add: Cons.IH Let_def luhn_double_def o_def mult.commute cong: if_cong)
qed

lemma len10_butlast: "length s = 10 \<Longrightarrow> butlast s = take 9 s"
  by (simp add: butlast_conv_take)

lemma len10_last: "length s = 10 \<Longrightarrow> last s = s ! 9"
  by (cases s rule: rev_cases) (auto simp: nth_append)

lemma luhn_loop_rev:
  "luhn_loop (rev base) 0 True = luhn_sum (map int_of_digit base)"
proof -
  have "\<And>i. i < length base \<Longrightarrow> int_of_digit (rev base ! i) = rev (map int_of_digit base) ! i"
    by (simp add: rev_map)
  then show ?thesis
    unfolding luhn_loop_sum luhn_sum_def
    by (auto intro!: arg_cong[where f=sum_list] map_cong)
qed

text \<open>
  C2. For every input string, \<open>is_valid_npi\<close> returns true if and only if, after all
  non-digit characters are stripped, exactly 10 digits remain and the Luhn check digit
  over the 14-digit base (\<open>80840\<close> before the first nine digits) equals the tenth digit.
\<close>

theorem is_valid_npi_iff_spec: "is_valid_npi npi = npi_spec npi"
proof (cases "length (filter re_digit npi) = 10")
  case True
  then have ne: "filter re_digit npi \<noteq> []" by auto
  have dig: "str_isdigit (filter re_digit npi)"
    using ne by (auto simp: str_isdigit_def list_all_iff)
  show ?thesis
    using True dig
    by (simp add: is_valid_npi_def npi_spec_def Let_def luhn_loop_rev luhn_check_digit_def
        len10_butlast len10_last del: map_append)
next
  case False
  then show ?thesis by (simp add: is_valid_npi_def npi_spec_def Let_def)
qed

theorem is_valid_npi_iff_spec_witness:
  "is_valid_npi ''1234567893'' = npi_spec ''1234567893'' \<and> npi_spec ''1234567893''
   \<and> is_valid_npi ''123-456-7894'' = npi_spec ''123-456-7894'' \<and> \<not> npi_spec ''123-456-7894''"
proof -
  have a: "npi_spec ''1234567893''" by code_simp
  have b: "\<not> npi_spec ''123-456-7894''" by code_simp
  show ?thesis
    using a b is_valid_npi_iff_spec[of "''1234567893''"] is_valid_npi_iff_spec[of "''123-456-7894''"]
    by blast
qed

lemma int_of_digit_range: "re_digit c \<Longrightarrow> 0 \<le> int_of_digit c \<and> int_of_digit c \<le> 9"
  by (auto simp: re_digit_def chr_between_def int_of_digit_def)

lemma int_of_digit_inj: "int_of_digit a = int_of_digit b \<Longrightarrow> a = b"
  by (simp add: int_of_digit_def)

lemma digit_cases: "0 \<le> a \<Longrightarrow> a \<le> 9 \<Longrightarrow> a \<in> {0,1,2,3,4,5,6,7,8,9::int}"
  by simp arith

lemma luhn_double_table:
  "\<forall>a\<in>{0,1,2,3,4,5,6,7,8,9::int}. \<forall>b\<in>{0,1,2,3,4,5,6,7,8,9::int}.
     luhn_double a mod 10 = luhn_double b mod 10 \<longrightarrow> a = b"
  by (simp add: luhn_double_def)

lemma luhn_weight_inj_mod:
  assumes "0 \<le> a" "a \<le> 9" "0 \<le> b" "b \<le> 9" "a \<noteq> b"
  shows "luhn_weight i a mod 10 \<noteq> luhn_weight i b mod 10"
proof (cases "even i")
  case True
  then show ?thesis
    using luhn_double_table digit_cases[OF assms(1,2)] digit_cases[OF assms(3,4)] assms(5)
    unfolding luhn_weight_def by (simp only: if_True) blast
next
  case False
  then show ?thesis using assms by (simp add: luhn_weight_def)
qed

lemma luhn_sum_weight: "luhn_sum ds = (\<Sum>i\<in>{0..<length ds}. luhn_weight i (rev ds ! i))"
  unfolding luhn_sum_def luhn_weight_def by (simp add: interv_sum_list_conv_sum_set_nat)

lemma luhn_sum_update:
  assumes k: "k < length ds"
  shows "luhn_sum (ds[k := y]) =
         luhn_sum ds - luhn_weight (length ds - Suc k) (ds ! k) + luhn_weight (length ds - Suc k) y"
proof -
  let ?n = "length ds" and ?j = "length ds - Suc k"
  have j: "?j \<in> {0..<?n}" using k by auto
  have old: "rev ds ! ?j = ds ! k" using k by (simp add: rev_nth)
  have new: "rev (ds[k := y]) ! ?j = y" using k by (simp add: rev_nth)
  have rest: "\<And>i. i \<in> {0..<?n} - {?j} \<Longrightarrow> rev (ds[k := y]) ! i = rev ds ! i"
    using k by (auto simp: rev_nth)
  have "luhn_sum (ds[k := y]) =
        luhn_weight ?j y + (\<Sum>i\<in>{0..<?n} - {?j}. luhn_weight i (rev (ds[k := y]) ! i))"
    using j by (simp add: luhn_sum_weight sum.remove[of _ ?j] new)
  also have "(\<Sum>i\<in>{0..<?n} - {?j}. luhn_weight i (rev (ds[k := y]) ! i)) =
        (\<Sum>i\<in>{0..<?n} - {?j}. luhn_weight i (rev ds ! i))"
    by (rule sum.cong) (simp_all add: rest)
  also have "\<dots> = luhn_sum ds - luhn_weight ?j (ds ! k)"
    using j by (simp add: luhn_sum_weight sum.remove[of _ ?j] old)
  finally show ?thesis by simp
qed

lemma mod10_shift:
  assumes "(wy::int) mod 10 \<noteq> wd mod 10"
  shows "(S - wd + wy) mod 10 \<noteq> S mod 10"
proof
  assume eq: "(S - wd + wy) mod 10 = S mod 10"
  have "(S - wd + wy - S) mod 10 = 0"
    using eq by (metis mod_eq_0_iff_dvd mod_eq_dvd_iff)
  then have "(wy - wd) mod 10 = 0" by (simp add: algebra_simps)
  then have "wy mod 10 = wd mod 10"
    by (metis mod_eq_0_iff_dvd mod_eq_dvd_iff)
  with assms show False by simp
qed

lemma check_digit_inj:
  assumes ne: "(S'::int) mod 10 \<noteq> S mod 10"
  shows "(10 - S' mod 10) mod 10 \<noteq> (10 - S mod 10) mod 10"
proof
  assume eq: "(10 - S' mod 10) mod 10 = (10 - S mod 10) mod 10"
  define a where "a = S' mod 10"
  define b where "b = S mod 10"
  have bounds: "0 \<le> a" "a < 10" "0 \<le> b" "b < 10" by (simp_all add: a_def b_def)
  have "10 dvd (10 - a) - (10 - b)"
    using eq unfolding a_def b_def by (simp only: mod_eq_dvd_iff)
  then obtain k where k: "(10 - a) - (10 - b) = 10 * k" by (auto elim: dvdE)
  have "a = b" using k bounds by arith
  with ne show False by (simp add: a_def b_def)
qed

lemma luhn_check_digit_update:
  assumes "k < length ds" "0 \<le> ds ! k" "ds ! k \<le> 9" "0 \<le> y" "y \<le> 9" "y \<noteq> ds ! k"
  shows "luhn_check_digit (ds[k := y]) \<noteq> luhn_check_digit ds"
proof -
  have "luhn_weight (length ds - Suc k) y mod 10 \<noteq> luhn_weight (length ds - Suc k) (ds ! k) mod 10"
    using assms by (intro luhn_weight_inj_mod) auto
  then have "luhn_sum (ds[k := y]) mod 10 \<noteq> luhn_sum ds mod 10"
    unfolding luhn_sum_update[OF assms(1)] by (rule mod10_shift)
  then show ?thesis unfolding luhn_check_digit_def by (rule check_digit_inj)
qed

lemma is_valid_npi_digits:
  assumes "length s = 10" "list_all re_digit s"
  shows "is_valid_npi s =
         (luhn_check_digit (map int_of_digit (''80840'' @ take 9 s)) = int_of_digit (s ! 9))"
proof -
  have f: "filter re_digit s = s" using assms(2) by (simp add: list_all_iff)
  have "str_isdigit s" using assms by (auto simp: str_isdigit_def list_all_iff)
  then show ?thesis
    using assms(1)
    by (simp add: is_valid_npi_def f Let_def luhn_loop_rev luhn_check_digit_def
        len10_butlast len10_last del: map_append)
qed

lemma filter_update_drop:
  assumes "i < length xs" "\<not> P c"
  shows "length (filter P (xs[i := c])) < length xs"
proof -
  have split: "xs[i := c] = take i xs @ c # drop (Suc i) xs"
    using assms(1) by (simp add: upd_conv_take_nth_drop)
  have "length (filter P (take i xs)) \<le> i"
    using length_filter_le[of P "take i xs"] assms(1) by simp
  moreover have "length (filter P (drop (Suc i) xs)) \<le> length xs - Suc i"
    using length_filter_le[of P "drop (Suc i) xs"] by simp
  ultimately show ?thesis
    unfolding split using assms by simp
qed

lemma update_after_prefix:
  "length p = n \<Longrightarrow> (p @ ys)[i + n := y] = p @ ys[i := y]"
  by (simp add: list_update_append)

lemma prefix_len: "length ''80840'' = 5"
  by simp

lemma valid_1234567893: "is_valid_npi ''1234567893''"
  by code_simp

text \<open>
  C8. For every 10-digit string that \<open>is_valid_npi\<close> accepts, every string obtained from it
  by changing exactly one digit is rejected. (The replacement character \<open>c\<close> is any
  character other than the one it replaces.)
\<close>

theorem npi_single_digit_error_detected:
  assumes len: "length s = 10" and digs: "list_all re_digit s" and valid: "is_valid_npi s"
    and i: "i < 10" and c: "c \<noteq> s ! i"
  shows "\<not> is_valid_npi (s[i := c])"
proof (cases "re_digit c")
  case False
  have "length (filter re_digit (s[i := c])) < 10"
    using filter_update_drop[of i s re_digit c] False len i by simp
  then show ?thesis by (simp add: is_valid_npi_def Let_def)
next
  case True
  define base where "base = map int_of_digit (''80840'' @ take 9 s)"
  define base' where "base' = map int_of_digit (''80840'' @ take 9 (s[i := c]))"
  have len': "length (s[i := c]) = 10" using len by simp
  have digs': "list_all re_digit (s[i := c])"
    using digs True set_update_subset_insert[of s i c] by (auto simp: list_all_iff)
  have v: "luhn_check_digit base = int_of_digit (s ! 9)"
    using valid is_valid_npi_digits[OF len digs] by (simp only: base_def)
  have v': "is_valid_npi (s[i := c]) = (luhn_check_digit base' = int_of_digit (s[i := c] ! 9))"
    using is_valid_npi_digits[OF len' digs'] by (simp only: base'_def)
  have si: "re_digit (s ! i)" using digs len i by (simp add: list_all_length)
  show ?thesis
  proof (cases "i = 9")
    case True
    have "base' = base" unfolding base_def base'_def True by simp
    moreover have "s[i := c] ! 9 = c" using True len by simp
    moreover have "int_of_digit c \<noteq> int_of_digit (s ! 9)"
      using c True int_of_digit_inj by blast
    ultimately show ?thesis using v v' by simp
  next
    case False
    then have i9: "i < 9" using i by simp
    have upd: "base' = base[i + 5 := int_of_digit c]"
      unfolding base_def base'_def
      by (simp only: take_update_swap
          update_after_prefix[of "''80840''" 5, OF prefix_len, symmetric] map_update)
    have nth: "base ! (i + 5) = int_of_digit (s ! i)"
      unfolding base_def using i9 len by (simp add: nth_append del: map_append)
    have lb: "i + 5 < length base" unfolding base_def using i9 len by simp
    have "luhn_check_digit (base[i + 5 := int_of_digit c]) \<noteq> luhn_check_digit base"
    proof (rule luhn_check_digit_update)
      show "i + 5 < length base" by (rule lb)
      show "0 \<le> base ! (i + 5)" "base ! (i + 5) \<le> 9"
        unfolding nth using int_of_digit_range[OF si] by simp_all
      show "0 \<le> int_of_digit c" "int_of_digit c \<le> 9"
        using int_of_digit_range[OF True] by simp_all
      show "int_of_digit c \<noteq> base ! (i + 5)"
        unfolding nth using c int_of_digit_inj by blast
    qed
    moreover have "s[i := c] ! 9 = s ! 9" using i9 by simp
    ultimately show ?thesis using v v' upd by simp
  qed
qed

theorem npi_single_digit_error_detected_witness:
  "length ''1234567893'' = 10 \<and> list_all re_digit ''1234567893'' \<and> is_valid_npi ''1234567893''
   \<and> (3::nat) < 10 \<and> CHR ''7'' \<noteq> ''1234567893'' ! 3
   \<and> \<not> is_valid_npi (''1234567893''[3 := CHR ''7''])"
proof -
  have a: "length ''1234567893'' = 10" by simp
  have b: "list_all re_digit ''1234567893''" by (simp add: re_digit_def chr_between_def)
  have i: "(3::nat) < 10" by simp
  have c: "CHR ''7'' \<noteq> ''1234567893'' ! 3" by simp
  from npi_single_digit_error_detected[OF a b valid_1234567893 i c] a b valid_1234567893 i c
  show ?thesis by blast
qed

section \<open>Frames and written files\<close>

lemma index_of_Some: "index_of xs x = Some i \<Longrightarrow> i < length xs \<and> xs ! i = x"
  by (induction xs arbitrary: i) (auto split: if_splits)

lemma index_of_None: "(index_of xs x = None) = (x \<notin> set xs)"
  by (induction xs) auto

lemma index_of_append_fresh: "c \<notin> set pre \<Longrightarrow> index_of (pre @ c # post) c = Some (length pre)"
  by (induction pre) auto

lemma set_column_frame_of_pairs:
  "set_column ''last_updated'' v (frame_of_pairs ps) = std_frame v ps"
  by (simp add: set_column_def frame_of_pairs_def std_frame_def pad_row_def split_def)

lemma set_column_std_frame:
  "set_column ''last_updated'' v' (std_frame v ps) = std_frame v' ps"
  by (simp add: set_column_def std_frame_def pad_row_def split_def)

lemma select_std_frame:
  "select_columns (std_frame v ps) [''code'', ''description'', ''last_updated''] = std_frame v ps"
  by (simp add: select_columns_def std_frame_def cell_at_def split_def)

lemma save_std_frame:
  "with_suffix_csv base = Inr path \<Longrightarrow>
   save_to_formats (std_frame v ps) base =
     Inr \<lparr>csv_path = path, csv_header = [''code'', ''description'', ''last_updated''],
          csv_rows = map (\<lambda>(c, d). [Some c, Some d, Some v]) ps\<rparr>"
  using select_std_frame[of v ps]
  by (simp add: save_to_formats_def to_csv_def) (simp add: std_frame_def)



lemma written_std_last_updated:
  "written_column \<lparr>csv_path = path, csv_header = [''code'', ''description'', ''last_updated''],
          csv_rows = map (\<lambda>(c, d). [Some c, Some d, Some v]) ps\<rparr> ''last_updated'' = replicate (length ps) (Some v)"
  by (simp add: written_column_def column_def cell_at_def split_def o_def map_replicate_const)

lemma suffix_hcpcs: "with_suffix_csv ''output/csv/hcpcs_latest'' = Inr ''output/csv/hcpcs_latest.csv''"
  by code_simp




lemma suffix_loinc: "with_suffix_csv ''output/csv/loinc_latest'' = Inr ''output/csv/loinc_latest.csv''"
  by code_simp

section \<open>Deduplication and blank descriptions\<close>





lemma distinct_map_fst_filter: "distinct (map fst ps) \<Longrightarrow> distinct (map fst (filter P ps))"
  by (rule distinct_map_filter)

lemma str_strip_head: "str_strip s \<noteq> [] \<Longrightarrow> \<not> py_isspace (hd (dropWhile py_isspace s))"
  by (metis (no_types, lifting) dropWhile.simps(1) hd_dropWhile rev.simps(1) str_strip_def)






section \<open>The cleaned record sets\<close>













section \<open>What each script writes\<close>

lemma hcpcs_script_writes:
  "hcpcs_script now file_lines =
     Inr \<lparr>csv_path = ''output/csv/hcpcs_latest.csv'',
          csv_header = [''code'', ''description'', ''last_updated''],
          csv_rows = map (\<lambda>(c, d). [Some c, Some d, Some (now_utc_iso now)])
                       (hcpcs_records file_lines)\<rparr>"
  by (simp add: hcpcs_script_def Let_def set_column_frame_of_pairs set_column_std_frame
      save_std_frame[OF suffix_hcpcs])

lemma icd10who_script_writes:
  "extract_rows xml_root \<noteq> [] \<Longrightarrow>
   icd10who_script now xml_root =
     Inr \<lparr>csv_path = ''output/csv/icd10who_latest.csv'',
          csv_header = [''code'', ''description'', ''last_updated''],
          csv_rows = map (\<lambda>(c, d). [Some c, Some d, Some ''2025-09-03''])
                       (who_records (extract_rows xml_root))\<rparr>"
  by (simp add: icd10who_script_def Let_def set_column_frame_of_pairs set_column_std_frame
      to_csv_def) (simp add: std_frame_def)













section \<open>C1: the record sets that are written\<close>




section \<open>C6 and C7: the value of last\_updated\<close>

text \<open>
  C6 as stated fails on the HCPCS script: it assigns the literal first and the time stamp
  of the run after it, so the time stamp is what the file holds.
\<close>

theorem hcpcs_last_updated_counterexample:
  "last_updated_of (hcpcs_script clock_example [''A1234 Thing'']) = [Some ''2025-09-12T14:30:00Z'']
   \<and> last_updated_of (hcpcs_script clock_example [''A1234 Thing'']) \<noteq> [Some ''2025-09-05'']"
  by code_simp

text \<open>
  C6, amended. In the ICD-10-WHO script the fixed literal is assigned right after the time
  stamp of the run, so every row written holds the literal \<open>2025-09-03\<close>, whatever the
  clock. In the HCPCS script the order is the reverse: the literal \<open>2025-09-05\<close> is assigned
  first and the time stamp of the run replaces it, so every row written holds the time
  stamp.
\<close>

theorem last_updated_assignment_order:
  "(extract_rows xml_root \<noteq> [] \<longrightarrow>
      (\<exists>f. icd10who_script now xml_root = Inr f
           \<and> written_column f ''last_updated'' = replicate (length (csv_rows f)) (Some ''2025-09-03'')))
   \<and> (\<exists>f. hcpcs_script now file_lines = Inr f
           \<and> written_column f ''last_updated''
               = replicate (length (csv_rows f)) (Some (now_utc_iso now)))"
  by (simp add: hcpcs_script_writes icd10who_script_writes written_std_last_updated)

theorem last_updated_assignment_order_witness:
  "extract_rows (Element ''class'' [(''code'', ''A00'')] None [Element ''title'' [] (Some ''Cholera'') []]) \<noteq> []
   \<and> last_updated_of (icd10who_script clock_example
         (Element ''class'' [(''code'', ''A00'')] None [Element ''title'' [] (Some ''Cholera'') []]))
       = [Some ''2025-09-03'']
   \<and> last_updated_of (hcpcs_script clock_example [''A1234 Thing'']) = [Some (now_utc_iso clock_example)]"
proof -
  let ?el = "Element ''class'' [(''code'', ''A00'')] None [Element ''title'' [] (Some ''Cholera'') []]"
  have ne: "extract_rows ?el \<noteq> []" by code_simp
  have w: "length (csv_rows (projr (icd10who_script clock_example ?el))) = 1" by code_simp
  have h: "length (csv_rows (projr (hcpcs_script clock_example [''A1234 Thing'']))) = 1" by code_simp
  from last_updated_assignment_order[of ?el clock_example "[''A1234 Thing'']"] ne
  obtain f g where f: "icd10who_script clock_example ?el = Inr f"
      "written_column f ''last_updated'' = replicate (length (csv_rows f)) (Some ''2025-09-03'')"
    and g: "hcpcs_script clock_example [''A1234 Thing''] = Inr g"
      "written_column g ''last_updated'' = replicate (length (csv_rows g)) (Some (now_utc_iso clock_example))"
    by blast
  show ?thesis using ne f g w h by (simp add: last_updated_of_def)
qed

lemma of_char_digit_chr: "of_char (digit_chr n) = 48 + n mod 10"
  by (simp add: digit_chr_def)

lemma re_digit_digit_chr: "re_digit (digit_chr n)"
  by (simp add: re_digit_def chr_between_def of_char_digit_chr)

lemma digit_chr_not_sep:
  "digit_chr n \<noteq> CHR ''-''" "digit_chr n \<noteq> CHR ''T''" "digit_chr n \<noteq> CHR '':''" "digit_chr n \<noteq> CHR ''Z''"
  using re_digit_digit_chr[of n] by (auto simp: re_digit_def chr_between_def)

lemma now_utc_iso_form: "iso_utc_z (now_utc_iso now)"
  by (simp add: iso_utc_z_def now_utc_iso_def strftime_iso_def pad2_def pad4_def
      re_digit_digit_chr)

text \<open>
  C7. Every record persisted is to carry in last\_updated a UTC time stamp in ISO 8601
  with seconds and the suffix Z. \<open>now_utc_iso\<close> has that form (\<open>now_utc_iso_form\<close>), but
  the ICD-10-WHO and LOINC scripts persist the literal \<open>2025-09-03\<close>, which has not.
\<close>

theorem fixed_date_not_iso:
  "last_updated_of (icd10who_script clock_example
      (Element ''class'' [(''code'', ''A00'')] None [Element ''title'' [] (Some ''Cholera'') []]))
     = [Some ''2025-09-03'']
   \<and> last_updated_of (loinc_script loinc_example) = [Some ''2025-09-03'', Some ''2025-09-03'']
   \<and> \<not> iso_utc_z ''2025-09-03''
   \<and> iso_utc_z (now_utc_iso clock_example)"
  by code_simp

theorem fixed_date_not_iso_witness:
  "last_updated_of (loinc_script loinc_example) = [Some ''2025-09-03'', Some ''2025-09-03'']
   \<and> \<not> iso_utc_z ''2025-09-03''"
  using fixed_date_not_iso by blast

section \<open>C9: the ICD-10-WHO extractor on the two elements of the specification\<close>

lemma title_child_code:
  "child_code [Element ''title'' [] (Some ''A00 Cholera'') []] = Some ''A00''"
  by code_simp

lemma title_child_desc:
  "child_desc [Element ''title'' [] (Some ''A00 Cholera'') []] [] = ''Cholera''"
  by code_simp

lemma remove_leading_code_example:
  "remove_leading_code ''A00 Cholera'' = ''Cholera''
   \<and> remove_leading_code ''A00: Cholera'' = ''Cholera''
   \<and> remove_leading_code ''A00 - Cholera'' = ''Cholera''
   \<and> remove_leading_code ''Cholera'' = ''Cholera''"
  by code_simp

text \<open>
  C9. The element \<^verbatim>\<open><class code="A00"><title>Cholera</title></class>\<close> gives the pair
  (A00, Cholera); an element none of whose attributes gives a code, with the one child
  \<^verbatim>\<open><title>A00 Cholera</title>\<close>, gives the same pair, whatever its tag and its own text: the
  code is taken from the start of the title and stripped from the description.
\<close>

theorem icd10who_extractor_examples:
  "extract_row (Element ''class'' [(''code'', ''A00'')] None
                  [Element ''title'' [] (Some ''Cholera'') []]) = Some (''A00'', ''Cholera'')
   \<and> (attrib_code attrs = None \<longrightarrow>
        extract_row (Element tg attrs tx [Element ''title'' [] (Some ''A00 Cholera'') []])
          = Some (''A00'', ''Cholera''))"
proof
  show "extract_row (Element ''class'' [(''code'', ''A00'')] None
                  [Element ''title'' [] (Some ''Cholera'') []]) = Some (''A00'', ''Cholera'')"
    by code_simp
  show "attrib_code attrs = None \<longrightarrow>
        extract_row (Element tg attrs tx [Element ''title'' [] (Some ''A00 Cholera'') []])
          = Some (''A00'', ''Cholera'')"
    by (simp add: extract_row_def Let_def py_not_def title_child_code title_child_desc
        del: child_code.simps child_desc.simps)
qed

theorem icd10who_extractor_examples_witness:
  "attrib_code [(''kind'', ''category'')] = None
   \<and> extract_row (Element ''Class'' [(''kind'', ''category'')] (Some ''x'')
                    [Element ''title'' [] (Some ''A00 Cholera'') []]) = Some (''A00'', ''Cholera'')
   \<and> extract_rows (Element ''ClaML'' [] None
        [Element ''class'' [(''code'', ''A00'')] None [Element ''title'' [] (Some ''Cholera'') []],
         Element ''class'' [] None [Element ''title'' [] (Some ''A00 Cholera'') []]])
       = [(''A00'', ''Cholera''), (''A00'', ''Cholera'')]"
proof -
  have a: "attrib_code [(''kind'', ''category'')] = None" by code_simp
  have r: "extract_rows (Element ''ClaML'' [] None
        [Element ''class'' [(''code'', ''A00'')] None [Element ''title'' [] (Some ''Cholera'') []],
         Element ''class'' [] None [Element ''title'' [] (Some ''A00 Cholera'') []]])
       = [(''A00'', ''Cholera''), (''A00'', ''Cholera'')]" by code_simp
  from icd10who_extractor_examples[of "[(''kind'', ''category'')]" "''Class''" "Some ''x''"] a r
  show ?thesis by blast
qed

section \<open>C10: what \<open>save_to_formats\<close> writes\<close>

text \<open>The components of a path written with slashes, and its root.\<close>

lemma split_on_no_sep:
  "sep \<notin> set p \<Longrightarrow> split_on sep (p @ rest) acc = split_on sep rest (rev p @ acc)"
  by (induction p arbitrary: acc) auto

lemma split_on_join:
  "\<forall>p\<in>set ps. sep \<notin> set p \<Longrightarrow> ps \<noteq> [] \<Longrightarrow> split_on sep (str_join [sep] ps) [] = ps"
proof (induction ps)
  case Nil
  then show ?case by simp
next
  case (Cons p ps)
  then have p: "sep \<notin> set p" by simp
  show ?case
  proof (cases ps)
    case Nil
    have "split_on sep (p @ []) [] = split_on sep [] (rev p @ [])"
      using p by (rule split_on_no_sep)
    then show ?thesis using Nil by simp
  next
    case tl: (Cons q qs)
    have "split_on sep (p @ sep # str_join [sep] ps) []
            = split_on sep (sep # str_join [sep] ps) (rev p @ [])"
      using p by (rule split_on_no_sep)
    then show ?thesis using tl Cons.IH Cons.prems by simp
  qed
qed

lemma path_parts_join:
  assumes "\<forall>p\<in>set comps. CHR ''/'' \<notin> set p" "anchor = [] \<or> anchor = ''/''"
  shows "path_parts (anchor @ str_join ''/'' comps) = filter (\<lambda>p. p \<noteq> [] \<and> p \<noteq> ''.'') comps"
proof (cases "comps = []")
  case True
  then show ?thesis using assms(2) by (auto simp: path_parts_def)
next
  case False
  have "split_on CHR ''/'' (str_join ''/'' comps) [] = comps"
    using split_on_join[OF assms(1) False] by simp
  then show ?thesis using assms(2) by (auto simp: path_parts_def)
qed

lemma str_join_starts: "\<exists>rest. str_join sep (p # ps) = p @ rest"
  by (cases ps) auto

lemma path_root_join:
  assumes "\<forall>p\<in>set comps. CHR ''/'' \<notin> set p" "comps = [] \<or> hd comps \<noteq> []"
    "anchor = [] \<or> anchor = ''/''"
  shows "path_root (anchor @ str_join ''/'' comps) = anchor"
proof (cases comps)
  case Nil
  then show ?thesis using assms(3) by (auto simp: path_root_def)
next
  case (Cons p ps)
  then obtain c cs where p: "p = c # cs" using assms(2) by (cases p) auto
  then have c: "c \<noteq> CHR ''/''" using assms(1) Cons by auto
  obtain rest where "str_join ''/'' comps = c # cs @ rest"
    using str_join_starts[of "''/''" p ps] Cons p by auto
  then show ?thesis using assms(3) c by (auto simp: path_root_def)
qed

text \<open>The suffix of a file name: from its last dot, unless that dot is the first or the last character.\<close>

lemma path_suffix_ext:
  assumes "stem \<noteq> []" "ext \<noteq> []" "CHR ''.'' \<notin> set ext"
  shows "path_suffix (stem @ CHR ''.'' # ext) = CHR ''.'' # ext"
proof -
  have "index_of (rev (stem @ CHR ''.'' # ext)) CHR ''.'' = Some (length ext)"
    using index_of_append_fresh[of "CHR ''.''" "rev ext" "rev stem"] assms(3) by simp
  then show ?thesis using assms(1,2) by (simp add: path_suffix_def Let_def)
qed

lemma path_suffix_none:
  assumes "CHR ''.'' \<notin> set (tl name)"
  shows "path_suffix name = []"
proof (cases name)
  case Nil
  then show ?thesis by (simp add: path_suffix_def)
next
  case (Cons c cs)
  show ?thesis
  proof (cases "c = CHR ''.''")
    case True
    have "index_of (rev name) CHR ''.'' = Some (length cs)"
      using index_of_append_fresh[of "CHR ''.''" "rev cs" "[]"] assms Cons True by simp
    then show ?thesis using Cons by (simp add: path_suffix_def Let_def)
  next
    case False
    then have "CHR ''.'' \<notin> set (rev name)" using assms Cons by simp
    then have "index_of (rev name) CHR ''.'' = None" by (simp add: index_of_None)
    then show ?thesis by (simp add: path_suffix_def)
  qed
qed

lemma with_suffix_csv_shape:
  assumes slash: "\<forall>p\<in>set comps. CHR ''/'' \<notin> set p"
    and lead: "comps = [] \<or> hd comps \<noteq> []"
    and anchor: "anchor = [] \<or> anchor = ''/''"
  shows "filter (\<lambda>p. p \<noteq> [] \<and> p \<noteq> ''.'') comps = []
           \<Longrightarrow> with_suffix_csv (anchor @ str_join ''/'' comps) = Inl ValueError"
    and "filter (\<lambda>p. p \<noteq> [] \<and> p \<noteq> ''.'') comps = dirs @ [stem @ CHR ''.'' # ext]
           \<Longrightarrow> stem \<noteq> [] \<Longrightarrow> ext \<noteq> [] \<Longrightarrow> CHR ''.'' \<notin> set ext
           \<Longrightarrow> with_suffix_csv (anchor @ str_join ''/'' comps)
                 = Inr (anchor @ str_join ''/'' (dirs @ [stem @ ''.csv'']))"
    and "filter (\<lambda>p. p \<noteq> [] \<and> p \<noteq> ''.'') comps = dirs @ [name]
           \<Longrightarrow> CHR ''.'' \<notin> set (tl name)
           \<Longrightarrow> with_suffix_csv (anchor @ str_join ''/'' comps)
                 = Inr (anchor @ str_join ''/'' (dirs @ [name @ ''.csv'']))"
  by (simp_all add: with_suffix_csv_def Let_def path_parts_join[OF slash anchor]
      path_root_join[OF slash lead anchor] path_suffix_ext path_suffix_none)

lemma select_columns_column:
  assumes "c \<in> set cols" "distinct cols" "c \<in> set (columns df)"
  shows "column (select_columns df cols) c = column df c"
proof -
  obtain i where i: "index_of cols c = Some i"
    using assms(1) index_of_None[of cols c] by (cases "index_of cols c") auto
  then have ic: "i < length cols" "cols ! i = c" using index_of_Some by fastforce+
  obtain j where j: "index_of (columns df) c = Some j"
    using assms(3) index_of_None[of "columns df" c] by (cases "index_of (columns df) c") auto
  show ?thesis
    using i ic j by (simp add: column_def select_columns_def cell_at_def)
qed

lemma save_to_formats_written:
  assumes "with_suffix_csv base_filename = Inr path"
  shows "\<exists>f. save_to_formats df base_filename = Inr f
            \<and> csv_path f = path
            \<and> csv_header f = filter (\<lambda>c. c \<in> set (columns df))
                                [''code'', ''description'', ''last_updated'']
            \<and> length (csv_rows f) = length (body df)
            \<and> (\<forall>c\<in>set (csv_header f). written_column f c = column df c)"
proof -
  let ?cols = "filter (\<lambda>c. c \<in> set (columns df)) [''code'', ''description'', ''last_updated'']"
  let ?f = "to_csv (select_columns df ?cols) path"
  have d: "distinct ?cols" by (rule distinct_filter) simp
  have s: "save_to_formats df base_filename = Inr ?f"
    using assms by (simp add: save_to_formats_def)
  have h: "csv_header ?f = ?cols" by (simp add: to_csv_def select_columns_def)
  have l: "length (csv_rows ?f) = length (body df)" by (simp add: to_csv_def select_columns_def)
  have w: "\<forall>c\<in>set (csv_header ?f). written_column ?f c = column df c"
  proof
    fix c assume "c \<in> set (csv_header ?f)"
    then have c: "c \<in> set ?cols" using h by simp
    then have cd: "c \<in> set (columns df)" unfolding set_filter by blast
    have "written_column ?f c = column (select_columns df ?cols) c"
      by (simp add: written_column_def to_csv_def select_columns_def)
    then show "written_column ?f c = column df c"
      using select_columns_column[OF c d cd] by simp
  qed
  have p: "csv_path ?f = path" by (simp add: to_csv_def)
  show ?thesis using s h l w p by blast
qed

lemma save_to_formats_failure:
  "save_to_formats df base_filename = Inl e \<Longrightarrow> save_to_formats other base_filename = Inl e"
  by (auto simp: save_to_formats_def split: sum.splits)

text \<open>
  C10. \<open>save_to_formats\<close> never fails on account of the columns: a failure is the same
  for every frame, and it is the \<^verbatim>\<open>ValueError\<close> of a path without a last component. For a
  frame of distinct labels and a base path given by its root (none or one slash) and its
  components between slashes, the file is written to the path of the same root and the
  same directories (empty components and single dots dropped), whose last component has
  its last suffix replaced by \<open>.csv\<close>, or \<open>.csv\<close> added when it has none. The file holds
  exactly those of code, description and last\_updated that are labels of the frame, in
  that order and with the frame's values, and no other column.
\<close>

theorem save_to_formats_present_columns:
  assumes labels: "distinct (columns df)"
    and slash: "\<forall>p\<in>set comps. CHR ''/'' \<notin> set p"
    and lead: "comps = [] \<or> hd comps \<noteq> []"
    and anchor: "anchor = [] \<or> anchor = ''/''"
  shows "(save_to_formats df base_filename = Inl e \<longrightarrow> save_to_formats other base_filename = Inl e)
    \<and> (filter (\<lambda>p. p \<noteq> [] \<and> p \<noteq> ''.'') comps = []
         \<longrightarrow> save_to_formats df (anchor @ str_join ''/'' comps) = Inl ValueError)
    \<and> (filter (\<lambda>p. p \<noteq> [] \<and> p \<noteq> ''.'') comps = dirs @ [name]
          \<and> ((name = stem @ CHR ''.'' # ext \<and> stem \<noteq> [] \<and> ext \<noteq> [] \<and> CHR ''.'' \<notin> set ext
                \<and> new_name = stem @ ''.csv'')
             \<or> (CHR ''.'' \<notin> set (tl name) \<and> new_name = name @ ''.csv''))
         \<longrightarrow> (\<exists>f. save_to_formats df (anchor @ str_join ''/'' comps) = Inr f
                \<and> csv_path f = anchor @ str_join ''/'' (dirs @ [new_name])
                \<and> csv_header f = filter (\<lambda>c. c \<in> set (columns df))
                                    [''code'', ''description'', ''last_updated'']
                \<and> length (csv_rows f) = length (body df)
                \<and> (\<forall>c\<in>set (csv_header f). written_column f c = column df c)))"
proof (intro conjI impI)
  assume "save_to_formats df base_filename = Inl e"
  then show "save_to_formats other base_filename = Inl e" by (rule save_to_formats_failure)
next
  assume "filter (\<lambda>p. p \<noteq> [] \<and> p \<noteq> ''.'') comps = []"
  then show "save_to_formats df (anchor @ str_join ''/'' comps) = Inl ValueError"
    using with_suffix_csv_shape(1)[OF slash lead anchor] by (simp add: save_to_formats_def)
next
  assume a: "filter (\<lambda>p. p \<noteq> [] \<and> p \<noteq> ''.'') comps = dirs @ [name]
          \<and> ((name = stem @ CHR ''.'' # ext \<and> stem \<noteq> [] \<and> ext \<noteq> [] \<and> CHR ''.'' \<notin> set ext
                \<and> new_name = stem @ ''.csv'')
             \<or> (CHR ''.'' \<notin> set (tl name) \<and> new_name = name @ ''.csv''))"
  then have "with_suffix_csv (anchor @ str_join ''/'' comps)
               = Inr (anchor @ str_join ''/'' (dirs @ [new_name]))"
    using with_suffix_csv_shape(2)[OF slash lead anchor, of dirs stem ext]
      with_suffix_csv_shape(3)[OF slash lead anchor, of dirs name] by blast
  then show "\<exists>f. save_to_formats df (anchor @ str_join ''/'' comps) = Inr f
                \<and> csv_path f = anchor @ str_join ''/'' (dirs @ [new_name])
                \<and> csv_header f = filter (\<lambda>c. c \<in> set (columns df))
                                    [''code'', ''description'', ''last_updated'']
                \<and> length (csv_rows f) = length (body df)
                \<and> (\<forall>c\<in>set (csv_header f). written_column f c = column df c)"
    by (rule save_to_formats_written)
qed

theorem save_to_formats_present_columns_witness:
  "distinct [''extra'', ''description'', ''code'']
   \<and> ''/'' @ str_join ''/'' [''abs'', [], ''.'', ''out.tar.txt''] = ''/abs//./out.tar.txt''
   \<and> (\<exists>f. save_to_formats \<lparr>columns = [''extra'', ''description'', ''code''],
                    body = [[Some ''x'', Some ''Cholera'', Some ''A00'']]\<rparr>
               ''/abs//./out.tar.txt'' = Inr f
          \<and> csv_path f = ''/abs/out.tar.csv''
          \<and> csv_header f = [''code'', ''description'']
          \<and> length (csv_rows f) = 1
          \<and> written_column f ''code'' = [Some ''A00'']
          \<and> written_column f ''description'' = [Some ''Cholera''])
   \<and> (\<exists>f. save_to_formats \<lparr>columns = [''extra'', ''description'', ''code''],
                    body = [[Some ''x'', Some ''Cholera'', Some ''A00'']]\<rparr>
               ''a/b.d/c'' = Inr f
          \<and> csv_path f = ''a/b.d/c.csv'')
   \<and> save_to_formats \<lparr>columns = [''extra'', ''description'', ''code''],
                    body = [[Some ''x'', Some ''Cholera'', Some ''A00'']]\<rparr> ''/./'' = Inl ValueError"
proof -
  let ?df = "\<lparr>columns = [''extra'', ''description'', ''code''],
                    body = [[Some ''x'', Some ''Cholera'', Some ''A00'']]\<rparr>"
  have d: "distinct (columns ?df)" by simp
  have k: "column ?df ''code'' = [Some ''A00'']" "column ?df ''description'' = [Some ''Cholera'']"
    by code_simp+
  note t = save_to_formats_present_columns[OF d]
  have j1: "''/'' @ str_join ''/'' [''abs'', [], ''.'', ''out.tar.txt''] = ''/abs//./out.tar.txt''"
    "''/'' @ str_join ''/'' ([''abs''] @ [''out.tar.csv'']) = ''/abs/out.tar.csv''"
    "[] @ str_join ''/'' [''a'', ''b.d'', ''c''] = ''a/b.d/c''"
    "[] @ str_join ''/'' ([''a'', ''b.d''] @ [''c.csv'']) = ''a/b.d/c.csv''"
    "''/'' @ str_join ''/'' [''.'', []] = ''/./''"
    by simp_all
  have "\<exists>f. save_to_formats ?df (''/'' @ str_join ''/'' [''abs'', [], ''.'', ''out.tar.txt'']) = Inr f
          \<and> csv_path f = ''/'' @ str_join ''/'' ([''abs''] @ [''out.tar.csv''])
          \<and> csv_header f = filter (\<lambda>c. c \<in> set (columns ?df)) [''code'', ''description'', ''last_updated'']
          \<and> length (csv_rows f) = length (body ?df)
          \<and> (\<forall>c\<in>set (csv_header f). written_column f c = column ?df c)"
    using t[where comps = "[''abs'', [], ''.'', ''out.tar.txt'']" and anchor = "''/''"
        and dirs = "[''abs'']" and name = "''out.tar.txt''" and stem = "''out.tar''"
        and ext = "''txt''" and new_name = "''out.tar.csv''", THEN conjunct2, THEN conjunct2]
    by simp
  then obtain f where f: "save_to_formats ?df ''/abs//./out.tar.txt'' = Inr f"
      "csv_path f = ''/abs/out.tar.csv''"
      "csv_header f = filter (\<lambda>c. c \<in> set (columns ?df)) [''code'', ''description'', ''last_updated'']"
      "length (csv_rows f) = length (body ?df)"
      "\<forall>c\<in>set (csv_header f). written_column f c = column ?df c"
    unfolding j1 by blast
  have h: "csv_header f = [''code'', ''description'']" using f(3) by simp
  have wc: "written_column f ''code'' = [Some ''A00'']"
      "written_column f ''description'' = [Some ''Cholera'']"
    using f(5) h k by simp_all
  have a: "\<exists>f. save_to_formats ?df ''/abs//./out.tar.txt'' = Inr f
          \<and> csv_path f = ''/abs/out.tar.csv''
          \<and> csv_header f = [''code'', ''description'']
          \<and> length (csv_rows f) = 1
          \<and> written_column f ''code'' = [Some ''A00'']
          \<and> written_column f ''description'' = [Some ''Cholera'']"
    using f(1,2,4) h wc by simp
  have "\<exists>g. save_to_formats ?df ([] @ str_join ''/'' [''a'', ''b.d'', ''c'']) = Inr g
          \<and> csv_path g = [] @ str_join ''/'' ([''a'', ''b.d''] @ [''c.csv''])
          \<and> csv_header g = filter (\<lambda>c. c \<in> set (columns ?df)) [''code'', ''description'', ''last_updated'']
          \<and> length (csv_rows g) = length (body ?df)
          \<and> (\<forall>c\<in>set (csv_header g). written_column g c = column ?df c)"
    using t[where comps = "[''a'', ''b.d'', ''c'']" and anchor = "[]"
        and dirs = "[''a'', ''b.d'']" and name = "''c''" and new_name = "''c.csv''",
        THEN conjunct2, THEN conjunct2]
    by simp
  then have b: "\<exists>g. save_to_formats ?df ''a/b.d/c'' = Inr g \<and> csv_path g = ''a/b.d/c.csv''"
    unfolding j1 by blast
  have c: "save_to_formats ?df ''/./'' = Inl ValueError"
    using t[where comps = "[''.'', []]" and anchor = "''/''", THEN conjunct2, THEN conjunct1]
    unfolding j1 by simp
  from a b c j1(1) show ?thesis by simp
qed

section \<open>C3: the ICD-10-CM loader and cleaner\<close>

lemma fixed_width_load_cases:
  "(fixed_width_load file_lines = Inl RuntimeError \<and> fixed_width_rows file_lines = [])
   \<or> (fixed_width_load file_lines = Inr (fixed_width_frame (fixed_width_rows file_lines))
       \<and> fixed_width_rows file_lines \<noteq> [])"
  by (simp add: fixed_width_load_def Let_def)

lemma fixed_width_rows_empty:
  "(fixed_width_rows file_lines = []) = (\<forall>l\<in>set file_lines. parse_order_line l = None)"
  by (induction file_lines) (auto simp: fixed_width_rows_def List.map_filter_simps split: option.splits)

lemma icd_records_all_invalid:
  assumes "\<forall>(c, d)\<in>set small.
             \<not> (re_fullmatch icd_pattern (str_upper (str_strip (astype_str c)))
                \<and> str_strip (astype_str d) \<noteq> [])"
  shows "icd_records small = []"
proof -
  let ?cleaned = "map (\<lambda>(code, description).
                         (str_upper (str_strip (astype_str code)),
                          str_strip (astype_str description))) small"
  let ?mask = "validate_code_format (map fst ?cleaned) icd_pattern"
  have "filter (\<lambda>(m, (code, description)). m \<and> description \<noteq> []) (zip ?mask ?cleaned) = []"
  proof (rule filter_False, rule ballI)
    fix x assume x: "x \<in> set (zip ?mask ?cleaned)"
    then obtain i where i: "i < length ?cleaned" "x = (?mask ! i, ?cleaned ! i)"
      by (auto simp: set_zip validate_code_format_def)
    then have m: "?mask ! i = re_fullmatch icd_pattern (fst (?cleaned ! i))"
      by (simp add: validate_code_format_def)
    obtain c d where cd: "small ! i = (c, d)" by (cases "small ! i")
    then have "(c, d) \<in> set small" using i(1) by (metis length_map nth_mem)
    with assms have "\<not> (re_fullmatch icd_pattern (str_upper (str_strip (astype_str c)))
                \<and> str_strip (astype_str d) \<noteq> [])" by blast
    moreover have "?cleaned ! i = (str_upper (str_strip (astype_str c)), str_strip (astype_str d))"
      using i(1) cd by simp
    ultimately show "\<not> (case x of (m, (code, description)) \<Rightarrow> m \<and> description \<noteq> [])"
      using i(2) m by simp
  qed
  then show ?thesis by (simp add: icd_records_def Let_def)
qed

text \<open>
  C3. The loader raises its parse failure (\<^verbatim>\<open>RuntimeError\<close>) exactly when it reaches the
  fixed-width path and no line of the file parses. The cleaner, once it has chosen its two
  columns, returns a frame whatever the rows are: when every row fails the validation it
  returns the frame of the three standard columns with no row.
\<close>

theorem icd10cm_parse_failure_asymmetry:
  "(load_icd10cm_data path_exists read_tab read_comma file_lines = Inl RuntimeError)
     = (path_exists
        \<and> (\<exists>df. (case read_tab of Some d \<Rightarrow> Some d | None \<Rightarrow> read_comma) = Some df
                \<and> length (columns df) \<le> 1)
        \<and> (\<forall>l\<in>set file_lines. parse_order_line l = None))
   \<and> (icd_code_col raw = Some code_col \<and> code_col \<noteq> []
        \<and> icd_desc_col raw (Some code_col) = Some desc_col \<and> desc_col \<noteq> []
        \<and> code_col \<noteq> desc_col
        \<and> (\<forall>(c, d)\<in>set (zip (column raw code_col) (column raw desc_col)).
              \<not> (re_fullmatch icd_pattern (str_upper (str_strip (astype_str c)))
                 \<and> str_strip (astype_str d) \<noteq> []))
      \<longrightarrow> clean_icd10cm_data now raw
            = Inr \<lparr>columns = [''code'', ''description'', ''last_updated''], body = []\<rparr>)"
proof
  show "(load_icd10cm_data path_exists read_tab read_comma file_lines = Inl RuntimeError)
     = (path_exists
        \<and> (\<exists>df. (case read_tab of Some d \<Rightarrow> Some d | None \<Rightarrow> read_comma) = Some df
                \<and> length (columns df) \<le> 1)
        \<and> (\<forall>l\<in>set file_lines. parse_order_line l = None))"
    unfolding fixed_width_rows_empty[symmetric]
    using fixed_width_load_cases[of file_lines]
    by (auto simp: load_icd10cm_data_def split: option.splits)
  show "icd_code_col raw = Some code_col \<and> code_col \<noteq> []
        \<and> icd_desc_col raw (Some code_col) = Some desc_col \<and> desc_col \<noteq> []
        \<and> code_col \<noteq> desc_col
        \<and> (\<forall>(c, d)\<in>set (zip (column raw code_col) (column raw desc_col)).
              \<not> (re_fullmatch icd_pattern (str_upper (str_strip (astype_str c)))
                 \<and> str_strip (astype_str d) \<noteq> []))
      \<longrightarrow> clean_icd10cm_data now raw
            = Inr \<lparr>columns = [''code'', ''description'', ''last_updated''], body = []\<rparr>"
  proof (intro impI, elim conjE)
    assume a: "icd_code_col raw = Some code_col" "code_col \<noteq> []"
      "icd_desc_col raw (Some code_col) = Some desc_col" "desc_col \<noteq> []" "code_col \<noteq> desc_col"
      and inv: "\<forall>(c, d)\<in>set (zip (column raw code_col) (column raw desc_col)).
              \<not> (re_fullmatch icd_pattern (str_upper (str_strip (astype_str c)))
                 \<and> str_strip (astype_str d) \<noteq> [])"
    show "clean_icd10cm_data now raw
            = Inr \<lparr>columns = [''code'', ''description'', ''last_updated''], body = []\<rparr>"
      using a icd_records_all_invalid[OF inv]
      by (simp add: clean_icd10cm_data_def Let_def py_not_def set_column_frame_of_pairs
          std_frame_def)
  qed
qed

theorem icd10cm_parse_failure_asymmetry_witness:
  "load_icd10cm_data True (Some \<lparr>columns = [''junk''], body = [[Some ''more junk'']]\<rparr>) None
       [''junk'', ''more junk''] = Inl RuntimeError
   \<and> load_icd10cm_data True (Some \<lparr>columns = [''00001 A00     0 Cholera''], body = []\<rparr>) None
       [''00001 A00     0 Cholera''] \<noteq> Inl RuntimeError
   \<and> clean_icd10cm_data clock_example
        \<lparr>columns = [''Code'', ''Description''], body = [[Some ''U07.1'', Some ''Covid''], [Some ''A01'', Some ''  '']]\<rparr>
      = Inr \<lparr>columns = [''code'', ''description'', ''last_updated''], body = []\<rparr>"
proof -
  let ?raw = "\<lparr>columns = [''Code'', ''Description''], body = [[Some ''U07.1'', Some ''Covid''], [Some ''A01'', Some ''  '']]\<rparr>"
  have p1: "\<forall>l\<in>set [''junk'', ''more junk'']. parse_order_line l = None" by code_simp
  have p2: "\<not> (\<forall>l\<in>set [''00001 A00     0 Cholera'']. parse_order_line l = None)" by code_simp
  have c: "icd_code_col ?raw = Some ''Code''" "icd_desc_col ?raw (Some ''Code'') = Some ''Description''"
    by code_simp+
  have zp: "zip (column ?raw ''Code'') (column ?raw ''Description'')
              = [(Some ''U07.1'', Some ''Covid''), (Some ''A01'', Some ''  '')]" by code_simp
  have u: "\<not> re_fullmatch icd_pattern (str_upper (str_strip (astype_str (Some ''U07.1''))))"
    by code_simp
  have e: "str_strip (astype_str (Some ''  '')) = []" by code_simp
  have z: "\<forall>(c, d)\<in>set (zip (column ?raw ''Code'') (column ?raw ''Description'')).
              \<not> (re_fullmatch icd_pattern (str_upper (str_strip (astype_str c)))
                 \<and> str_strip (astype_str d) \<noteq> [])"
    unfolding zp using u e by simp
  note t = icd10cm_parse_failure_asymmetry
  have a: "load_icd10cm_data True (Some \<lparr>columns = [''junk''], body = [[Some ''more junk'']]\<rparr>) None
       [''junk'', ''more junk''] = Inl RuntimeError"
    using t[THEN conjunct1, of True "Some \<lparr>columns = [''junk''], body = [[Some ''more junk'']]\<rparr>" None
        "[''junk'', ''more junk'']"] p1 by simp
  have b: "load_icd10cm_data True (Some \<lparr>columns = [''00001 A00     0 Cholera''], body = []\<rparr>) None
       [''00001 A00     0 Cholera''] \<noteq> Inl RuntimeError"
    using t[THEN conjunct1, of True "Some \<lparr>columns = [''00001 A00     0 Cholera''], body = []\<rparr>" None
        "[''00001 A00     0 Cholera'']"] p2 by simp
  have d: "clean_icd10cm_data clock_example ?raw
      = Inr \<lparr>columns = [''code'', ''description'', ''last_updated''], body = []\<rparr>"
    using t[THEN conjunct2, of ?raw "''Code''" "''Description''" clock_example] c z by simp
  from a b d show ?thesis by blast
qed

section \<open>C5: the delimited readings of the ICD-10-CM loader\<close>

text \<open>
  C5. The loader is to attempt tab-delimited and then comma-delimited parsing and to
  return the delimited dataset when it has more than one column. On a well-formed
  comma-separated file it does not: the tab-delimited call returns one column without
  raising, the comma-delimited call, which sits in the \<^verbatim>\<open>except\<close> branch, is never made
  (whatever it would return, here two columns), and the loader ends in the fixed-width
  path, where no line parses.
\<close>

theorem icd10cm_loader_csv_never_read:
  "load_icd10cm_data True
        (Some \<lparr>columns = [''code,description''], body = [[Some ''A00,Cholera'']]\<rparr>)
        (Some \<lparr>columns = [''code'', ''description''], body = [[Some ''A00'', Some ''Cholera'']]\<rparr>)
        [''code,description'', ''A00,Cholera'']
      = Inl RuntimeError
   \<and> load_icd10cm_data True
        (Some \<lparr>columns = [''code,description''], body = [[Some ''A00,Cholera'']]\<rparr>)
        None
        [''code,description'', ''A00,Cholera'']
      = Inl RuntimeError"
  by code_simp

theorem icd10cm_loader_csv_never_read_witness:
  "load_icd10cm_data True
        (Some \<lparr>columns = [''code,description''], body = [[Some ''A00,Cholera'']]\<rparr>)
        (Some \<lparr>columns = [''code'', ''description''], body = [[Some ''A00'', Some ''Cholera'']]\<rparr>)
        [''code,description'', ''A00,Cholera'']
      = Inl RuntimeError"
  using icd10cm_loader_csv_never_read by blast

section \<open>C4: the choice of columns\<close>

lemma first_present_first:
  assumes "i < length candidates" "candidates ! i \<in> set cols"
    "\<forall>j<i. candidates ! j \<notin> set cols"
  shows "first_present candidates cols = Some (candidates ! i)"
  unfolding first_present_def find_Some_iff using assms by blast

lemma first_present_none:
  "(first_present candidates cols = None) = (set candidates \<inter> set cols = {})"
  by (auto simp: first_present_def find_None_iff)

lemma first_present_member:
  "first_present candidates cols = Some c \<Longrightarrow> c \<in> set candidates \<and> c \<in> set cols"
  by (auto simp: first_present_def find_Some_iff)

text \<open>What the scan returns, from any starting pair.\<close>

lemma scan_best_result:
  "scan_best score cols (best, rate) = (b, r) \<Longrightarrow>
     (b = best \<and> r = rate \<and> (\<forall>c\<in>set cols. \<forall>s. score c = Some s \<longrightarrow> s \<le> rate))
   \<or> (\<exists>pre post c. cols = pre @ c # post \<and> b = Some c \<and> score c = Some r \<and> rate < r
        \<and> (\<forall>c'\<in>set pre. \<forall>s. score c' = Some s \<longrightarrow> s < r)
        \<and> (\<forall>c'\<in>set post. \<forall>s. score c' = Some s \<longrightarrow> s \<le> r))"
proof (induction cols arbitrary: best rate)
  case Nil
  then show ?case by simp
next
  case (Cons c cs)
  show ?case
  proof (cases "score c")
    case None
    with Cons.prems have "scan_best score cs (best, rate) = (b, r)" by simp
    from Cons.IH[OF this] show ?thesis
    proof
      assume "b = best \<and> r = rate \<and> (\<forall>c\<in>set cs. \<forall>s. score c = Some s \<longrightarrow> s \<le> rate)"
      then show ?thesis using None by auto
    next
      assume "\<exists>pre post c. cs = pre @ c # post \<and> b = Some c \<and> score c = Some r \<and> rate < r
        \<and> (\<forall>c'\<in>set pre. \<forall>s. score c' = Some s \<longrightarrow> s < r)
        \<and> (\<forall>c'\<in>set post. \<forall>s. score c' = Some s \<longrightarrow> s \<le> r)"
      then obtain pre post m where m: "cs = pre @ m # post" "b = Some m" "score m = Some r" "rate < r"
        "\<forall>c'\<in>set pre. \<forall>s. score c' = Some s \<longrightarrow> s < r"
        "\<forall>c'\<in>set post. \<forall>s. score c' = Some s \<longrightarrow> s \<le> r" by blast
      have "c # cs = (c # pre) @ m # post" using m(1) by simp
      moreover have "\<forall>c'\<in>set (c # pre). \<forall>s. score c' = Some s \<longrightarrow> s < r"
        using m(5) None by auto
      ultimately show ?thesis using m(2,3,4,6) by blast
    qed
  next
    case (Some s)
    show ?thesis
    proof (cases "s > rate")
      case True
      with Cons.prems Some have "scan_best score cs (Some c, s) = (b, r)" by simp
      from Cons.IH[OF this] show ?thesis
      proof
        assume "b = Some c \<and> r = s \<and> (\<forall>c\<in>set cs. \<forall>s'. score c = Some s' \<longrightarrow> s' \<le> s)"
        then have "c # cs = [] @ c # cs \<and> b = Some c \<and> score c = Some r \<and> rate < r
            \<and> (\<forall>c'\<in>set []. \<forall>s. score c' = Some s \<longrightarrow> s < r)
            \<and> (\<forall>c'\<in>set cs. \<forall>s. score c' = Some s \<longrightarrow> s \<le> r)"
          using Some True by simp
        then show ?thesis by blast
      next
        assume "\<exists>pre post ca. cs = pre @ ca # post \<and> b = Some ca \<and> score ca = Some r \<and> s < r
          \<and> (\<forall>c'\<in>set pre. \<forall>s. score c' = Some s \<longrightarrow> s < r)
          \<and> (\<forall>c'\<in>set post. \<forall>s. score c' = Some s \<longrightarrow> s \<le> r)"
        then obtain pre post m where m: "cs = pre @ m # post" "b = Some m" "score m = Some r" "s < r"
          "\<forall>c'\<in>set pre. \<forall>s. score c' = Some s \<longrightarrow> s < r"
          "\<forall>c'\<in>set post. \<forall>s. score c' = Some s \<longrightarrow> s \<le> r" by blast
        have "c # cs = (c # pre) @ m # post" using m(1) by simp
        moreover have "\<forall>c'\<in>set (c # pre). \<forall>s. score c' = Some s \<longrightarrow> s < r"
          using m(4,5) Some by auto
        moreover have "rate < r" using True m(4) by simp
        ultimately show ?thesis using m(2,3,6) by blast
      qed
    next
      case False
      with Cons.prems Some have "scan_best score cs (best, rate) = (b, r)" by simp
      from Cons.IH[OF this] show ?thesis
      proof
        assume "b = best \<and> r = rate \<and> (\<forall>c\<in>set cs. \<forall>s. score c = Some s \<longrightarrow> s \<le> rate)"
        then show ?thesis using Some False by auto
      next
        assume "\<exists>pre post c. cs = pre @ c # post \<and> b = Some c \<and> score c = Some r \<and> rate < r
          \<and> (\<forall>c'\<in>set pre. \<forall>s. score c' = Some s \<longrightarrow> s < r)
          \<and> (\<forall>c'\<in>set post. \<forall>s. score c' = Some s \<longrightarrow> s \<le> r)"
        then obtain pre post m where m: "cs = pre @ m # post" "b = Some m" "score m = Some r" "rate < r"
          "\<forall>c'\<in>set pre. \<forall>s. score c' = Some s \<longrightarrow> s < r"
          "\<forall>c'\<in>set post. \<forall>s. score c' = Some s \<longrightarrow> s \<le> r" by blast
        have "c # cs = (c # pre) @ m # post" using m(1) by simp
        moreover have "\<forall>c'\<in>set (c # pre). \<forall>s. score c' = Some s \<longrightarrow> s < r"
          using m(4,5) Some False by auto
        ultimately show ?thesis using m(2,3,4,6) by blast
      qed
    qed
  qed
qed

lemma first_maximum_split:
  assumes "cols = pre @ c # post" "score c = Some r"
    "\<forall>c'\<in>set pre. \<forall>s. score c' = Some s \<longrightarrow> s < r"
    "\<forall>c'\<in>set post. \<forall>s. score c' = Some s \<longrightarrow> s \<le> r"
  shows "first_maximum score cols c"
proof -
  have "c \<notin> set pre" using assms(2,3) by auto
  then have i: "index_of cols c = Some (length pre)"
    using assms(1) by (simp add: index_of_append_fresh)
  show ?thesis
    unfolding first_maximum_def i assms(2)
    using assms(1,3,4) by (auto simp: list_all_iff split: option.splits)
qed

lemma scan_from_start:
  "(fst (scan_best score cols (None, 0)) = None
      \<and> list_all (\<lambda>c. \<not> float_gt (score c) (Some 0)) cols)
   \<or> (\<exists>c. fst (scan_best score cols (None, 0)) = Some c
        \<and> float_gt (score c) (Some 0) \<and> first_maximum score cols c)"
proof -
  obtain b r where br: "scan_best score cols (None, 0) = (b, r)" by (cases "scan_best score cols (None, 0)")
  from scan_best_result[OF br] show ?thesis
  proof
    assume "b = None \<and> r = 0 \<and> (\<forall>c\<in>set cols. \<forall>s. score c = Some s \<longrightarrow> s \<le> 0)"
    then show ?thesis
      using br by (auto simp: list_all_iff float_gt_def split: option.splits)
  next
    assume "\<exists>pre post c. cols = pre @ c # post \<and> b = Some c \<and> score c = Some r \<and> 0 < r
        \<and> (\<forall>c'\<in>set pre. \<forall>s. score c' = Some s \<longrightarrow> s < r)
        \<and> (\<forall>c'\<in>set post. \<forall>s. score c' = Some s \<longrightarrow> s \<le> r)"
    then obtain pre post c where c: "cols = pre @ c # post" "b = Some c" "score c = Some r" "0 < r"
        "\<forall>c'\<in>set pre. \<forall>s. score c' = Some s \<longrightarrow> s < r"
        "\<forall>c'\<in>set post. \<forall>s. score c' = Some s \<longrightarrow> s \<le> r" by blast
    have "first_maximum score cols c" using first_maximum_split[OF c(1,3,5,6)] .
    then show ?thesis using br c(2,3,4) by (auto simp: float_gt_def)
  qed
qed

lemma detect_column_by_name:
  assumes "[] \<notin> set candidates" "i < length candidates" "candidates ! i \<in> set cols"
    "\<forall>j<i. candidates ! j \<notin> set cols"
  shows "detect_column candidates score cols = Some (candidates ! i)"
proof -
  have "candidates ! i \<noteq> []" using assms(1,2) by (metis nth_mem)
  then show ?thesis
    by (simp add: detect_column_def Let_def first_present_first[OF assms(2,3,4)] py_not_def)
qed

lemma detect_column_by_scan:
  assumes "set candidates \<inter> set cols = {}"
  shows "detect_column candidates score cols = fst (scan_best score cols (None, 0))"
  using assms by (simp add: detect_column_def Let_def first_present_none[symmetric] py_not_def)

text \<open>What \<^verbatim>\<open>max\<close> returns: a candidate that none exceeds.\<close>

lemma max_loop_nan: "score best = None \<Longrightarrow> max_loop score cs best = best"
  by (induction cs) (simp_all add: float_gt_def split: option.splits)

lemma max_loop_result:
  "max_loop score cs best \<in> set (best # cs)
   \<and> \<not> float_gt (score best) (score (max_loop score cs best))
   \<and> (\<forall>c\<in>set cs. \<not> float_gt (score c) (score (max_loop score cs best)))"
proof (induction cs arbitrary: best)
  case Nil
  show ?case by (simp add: float_gt_def split: option.splits)
next
  case (Cons c cs)
  show ?case
  proof (cases "float_gt (score c) (score best)")
    case True
    have "\<not> float_gt (score best) (score (max_loop score cs c))"
      using Cons.IH[of c] True by (auto simp: float_gt_def split: option.splits)
    then show ?thesis using Cons.IH[of c] True by auto
  next
    case False
    have "\<not> float_gt (score c) (score (max_loop score cs best))"
    proof (cases "score best")
      case None
      then show ?thesis by (simp add: max_loop_nan float_gt_def split: option.splits)
    next
      case (Some b)
      then show ?thesis
        using Cons.IH[of best] False by (auto simp: float_gt_def split: option.splits)
    qed
    then show ?thesis using Cons.IH[of best] False by auto
  qed
qed

lemma npi_callers_raise:
  "py_not (npi_column df) \<Longrightarrow> clean_npi_data now df = Inl KeyError"
  "py_not (npi_column (strip_columns (file\<lparr>body := take 5000 (body file)\<rparr>)))
     \<Longrightarrow> detect_columns file = Inl KeyError"
  by (simp_all add: clean_npi_data_def detect_columns_def Let_def)

lemma icd_caller_raises:
  "py_not (icd_code_col df) \<Longrightarrow> clean_icd10cm_data now df = Inl KeyError"
  by (simp add: clean_icd10cm_data_def Let_def)

lemma icd_desc_col_cases:
  "(\<forall>d. first_present [''Long Description'', ''Description'', ''Title'',
             ''Short Description'', ''short_description'', ''long_description''] (columns df) = Some d
        \<longrightarrow> icd_desc_col df code_col = Some d)
   \<and> (first_present [''Long Description'', ''Description'', ''Title'',
             ''Short Description'', ''short_description'', ''long_description''] (columns df) = None
      \<longrightarrow> (case filter (\<lambda>c. Some c \<noteq> code_col) (columns df) of
             [] \<Rightarrow> icd_desc_col df code_col = None
           | c # cs \<Rightarrow>
               (\<exists>m. icd_desc_col df code_col = Some m \<and> m \<in> set (c # cs)
                  \<and> list_all (\<lambda>c'. \<not> float_gt (text_length_mean df c') (text_length_mean df m))
                       (c # cs))))"
proof (intro conjI allI impI)
  fix d
  assume d: "first_present [''Long Description'', ''Description'', ''Title'',
             ''Short Description'', ''short_description'', ''long_description''] (columns df) = Some d"
  then have "d \<noteq> []" using first_present_member[OF d] by auto
  then show "icd_desc_col df code_col = Some d"
    using d by (simp add: icd_desc_col_def Let_def py_not_def)
next
  assume n: "first_present [''Long Description'', ''Description'', ''Title'',
             ''Short Description'', ''short_description'', ''long_description''] (columns df) = None"
  show "case filter (\<lambda>c. Some c \<noteq> code_col) (columns df) of
             [] \<Rightarrow> icd_desc_col df code_col = None
           | c # cs \<Rightarrow>
               (\<exists>m. icd_desc_col df code_col = Some m \<and> m \<in> set (c # cs)
                  \<and> list_all (\<lambda>c'. \<not> float_gt (text_length_mean df c') (text_length_mean df m))
                       (c # cs))"
  proof (cases "filter (\<lambda>c. Some c \<noteq> code_col) (columns df)")
    case Nil
    then show ?thesis using n by (simp add: icd_desc_col_def Let_def py_not_def)
  next
    case (Cons c cs)
    have "icd_desc_col df code_col = Some (max_loop (text_length_mean df) cs c)"
      using n Cons by (simp add: icd_desc_col_def Let_def py_not_def)
    then show ?thesis
      using Cons max_loop_result[of "text_length_mean df" cs c] by (simp add: list_all_iff)
  qed
qed

lemma first_maximum_member: "first_maximum score cols c \<Longrightarrow> c \<in> set cols"
  by (auto simp: first_maximum_def split: option.splits dest: index_of_Some)

lemma py_not_cases: "py_not x = (x = None \<or> x = Some [])"
  by (cases x) (simp_all add: py_not_def)

lemma detect_column_scan_cases:
  assumes "set candidates \<inter> set cols = {}"
  shows "case detect_column candidates score cols of
           None \<Rightarrow> list_all (\<lambda>c. \<not> float_gt (score c) (Some 0)) cols
         | Some c \<Rightarrow> float_gt (score c) (Some 0) \<and> first_maximum score cols c"
  unfolding detect_column_by_scan[OF assms]
  using scan_from_start[of score cols] by auto

lemma detect_column_nothing:
  assumes "set candidates \<inter> set cols = {}" "list_all (\<lambda>c. \<not> float_gt (score c) (Some 0)) cols"
  shows "detect_column candidates score cols = None"
proof (cases "detect_column candidates score cols")
  case None
  then show ?thesis .
next
  case (Some c)
  with detect_column_scan_cases[OF assms(1), of score]
  have "float_gt (score c) (Some 0)" "first_maximum score cols c" by simp_all
  then have "c \<in> set cols" "float_gt (score c) (Some 0)" using first_maximum_member by auto
  with assms(2) show ?thesis by (auto simp: list_all_iff)
qed

text \<open>
  C4 as stated fails in two places. A column whose stripped label is the empty string
  can win the scan with a positive score, and the callers then raise \<^verbatim>\<open>KeyError\<close> instead
  of returning it, since their test is \<^verbatim>\<open>if not npi_col\<close>. And the description column of
  \<^verbatim>\<open>clean_icd10cm_data\<close> is chosen by \<^verbatim>\<open>max\<close>, which returns a column even when no score
  exceeds zero (here a frame without rows, every mean NaN): no failure is signalled.
\<close>

theorem column_detector_counterexample:
  "ten_digit_rate \<lparr>columns = [[]], body = [[Some ''1234567893'']]\<rparr> [] = Some 1
   \<and> npi_column \<lparr>columns = [[]], body = [[Some ''1234567893'']]\<rparr> = Some []
   \<and> clean_npi_data clock_example \<lparr>columns = [[]], body = [[Some ''1234567893'']]\<rparr> = Inl KeyError
   \<and> detect_columns \<lparr>columns = ['' ''], body = [[Some ''1234567893'']]\<rparr> = Inl KeyError
   \<and> text_length_mean \<lparr>columns = [''Code'', ''a'', ''b''], body = []\<rparr> ''a'' = None
   \<and> text_length_mean \<lparr>columns = [''Code'', ''a'', ''b''], body = []\<rparr> ''b'' = None
   \<and> icd_desc_col \<lparr>columns = [''Code'', ''a'', ''b''], body = []\<rparr> (Some ''Code'') = Some ''a''
   \<and> clean_icd10cm_data clock_example \<lparr>columns = [''Code'', ''a'', ''b''], body = []\<rparr>
       = Inr \<lparr>columns = [''code'', ''description'', ''last_updated''], body = []\<rparr>"
  by code_simp

text \<open>
  C4, amended. For every list of preferred names without the empty name, every scoring
  function and every list of columns, the code-column detector returns the first candidate
  that is a column, whatever the data; only if no candidate is a column does it scan all
  columns, selecting the first column of maximum score (the comparison is strict) when some
  score exceeds zero, and nothing otherwise. Its callers raise \<^verbatim>\<open>KeyError\<close> when nothing is
  selected, and also when the label selected is the empty string. The description column
  of \<^verbatim>\<open>clean_icd10cm_data\<close> is the first preferred name present; else \<^verbatim>\<open>max\<close> picks, among the
  columns other than the code column, one of maximum mean text length (with pandas 2 a
  missing cell counts as the three characters of \<open>nan\<close>), and the choice fails only when
  there is no such column.
\<close>

theorem column_detector:
  "([] \<notin> set candidates \<and> i < length candidates \<and> candidates ! i \<in> set cols
       \<and> (\<forall>j<i. candidates ! j \<notin> set cols)
      \<longrightarrow> detect_column candidates score cols = Some (candidates ! i))
   \<and> (set candidates \<inter> set cols = {} \<longrightarrow>
        (case detect_column candidates score cols of
           None \<Rightarrow> list_all (\<lambda>c. \<not> float_gt (score c) (Some 0)) cols
         | Some c \<Rightarrow> float_gt (score c) (Some 0) \<and> first_maximum score cols c)
        \<and> (list_all (\<lambda>c. \<not> float_gt (score c) (Some 0)) cols
             \<longrightarrow> detect_column candidates score cols = None))
   \<and> (npi_column df = None \<or> npi_column df = Some []
        \<longrightarrow> clean_npi_data now df = Inl KeyError)
   \<and> (npi_column (strip_columns (df\<lparr>body := take 5000 (body df)\<rparr>)) = None
          \<or> npi_column (strip_columns (df\<lparr>body := take 5000 (body df)\<rparr>)) = Some []
        \<longrightarrow> detect_columns df = Inl KeyError)
   \<and> (icd_code_col df = None \<or> icd_code_col df = Some []
        \<longrightarrow> clean_icd10cm_data now df = Inl KeyError)
   \<and> (\<forall>d. first_present [''Long Description'', ''Description'', ''Title'',
             ''Short Description'', ''short_description'', ''long_description''] (columns df) = Some d
        \<longrightarrow> icd_desc_col df code_col = Some d)
   \<and> (first_present [''Long Description'', ''Description'', ''Title'',
             ''Short Description'', ''short_description'', ''long_description''] (columns df) = None
      \<longrightarrow> (case filter (\<lambda>c. Some c \<noteq> code_col) (columns df) of
             [] \<Rightarrow> icd_desc_col df code_col = None
           | c # cs \<Rightarrow>
               (\<exists>m. icd_desc_col df code_col = Some m \<and> m \<in> set (c # cs)
                  \<and> list_all (\<lambda>c'. \<not> float_gt (text_length_mean df c') (text_length_mean df m))
                       (c # cs))))"
proof (intro conjI)
  show "[] \<notin> set candidates \<and> i < length candidates \<and> candidates ! i \<in> set cols
       \<and> (\<forall>j<i. candidates ! j \<notin> set cols)
      \<longrightarrow> detect_column candidates score cols = Some (candidates ! i)"
    using detect_column_by_name by blast
  show "set candidates \<inter> set cols = {} \<longrightarrow>
        (case detect_column candidates score cols of
           None \<Rightarrow> list_all (\<lambda>c. \<not> float_gt (score c) (Some 0)) cols
         | Some c \<Rightarrow> float_gt (score c) (Some 0) \<and> first_maximum score cols c)
        \<and> (list_all (\<lambda>c. \<not> float_gt (score c) (Some 0)) cols
             \<longrightarrow> detect_column candidates score cols = None)"
    using detect_column_scan_cases detect_column_nothing by blast
  show "npi_column df = None \<or> npi_column df = Some []
        \<longrightarrow> clean_npi_data now df = Inl KeyError"
    using npi_callers_raise(1)[of df now] py_not_cases[of "npi_column df"] by blast
  show "npi_column (strip_columns (df\<lparr>body := take 5000 (body df)\<rparr>)) = None
          \<or> npi_column (strip_columns (df\<lparr>body := take 5000 (body df)\<rparr>)) = Some []
        \<longrightarrow> detect_columns df = Inl KeyError"
    using npi_callers_raise(2)[of df]
      py_not_cases[of "npi_column (strip_columns (df\<lparr>body := take 5000 (body df)\<rparr>))"]
    by blast
  show "icd_code_col df = None \<or> icd_code_col df = Some []
        \<longrightarrow> clean_icd10cm_data now df = Inl KeyError"
    using icd_caller_raises[of df now] py_not_cases[of "icd_code_col df"] by blast
  show "\<forall>d. first_present [''Long Description'', ''Description'', ''Title'',
             ''Short Description'', ''short_description'', ''long_description''] (columns df) = Some d
        \<longrightarrow> icd_desc_col df code_col = Some d"
    using icd_desc_col_cases[of df code_col] by blast
  show "first_present [''Long Description'', ''Description'', ''Title'',
             ''Short Description'', ''short_description'', ''long_description''] (columns df) = None
      \<longrightarrow> (case filter (\<lambda>c. Some c \<noteq> code_col) (columns df) of
             [] \<Rightarrow> icd_desc_col df code_col = None
           | c # cs \<Rightarrow>
               (\<exists>m. icd_desc_col df code_col = Some m \<and> m \<in> set (c # cs)
                  \<and> list_all (\<lambda>c'. \<not> float_gt (text_length_mean df c') (text_length_mean df m))
                       (c # cs)))"
    using icd_desc_col_cases[of df code_col] by blast
qed

theorem column_detector_witness:
  "npi_column \<lparr>columns = [''id'', ''npi'', ''NPI''], body = [[Some ''1234567893'', Some ''x'', Some ''y'']]\<rparr>
     = Some ''NPI''
   \<and> npi_column \<lparr>columns = [''a'', ''Npi '', ''c''],
         body = [[Some ''1'', Some ''1234567893'', Some ''1234567893''],
                 [Some ''1234567893'', Some ''0000000000'', Some ''0000000000'']]\<rparr> = Some ''Npi ''
   \<and> first_maximum
        (ten_digit_rate \<lparr>columns = [''a'', ''Npi '', ''c''],
           body = [[Some ''1'', Some ''1234567893'', Some ''1234567893''],
                   [Some ''1234567893'', Some ''0000000000'', Some ''0000000000'']]\<rparr>)
        [''a'', ''Npi '', ''c''] ''Npi ''
   \<and> clean_npi_data clock_example \<lparr>columns = [''a'', ''b''], body = [[Some ''1'', Some ''x'']]\<rparr>
       = Inl KeyError"
proof -
  let ?f1 = "\<lparr>columns = [''id'', ''npi'', ''NPI''], body = [[Some ''1234567893'', Some ''x'', Some ''y'']]\<rparr>"
  let ?f2 = "\<lparr>columns = [''a'', ''Npi '', ''c''],
         body = [[Some ''1'', Some ''1234567893'', Some ''1234567893''],
                 [Some ''1234567893'', Some ''0000000000'', Some ''0000000000'']]\<rparr>"
  let ?f3 = "\<lparr>columns = [''a'', ''b''], body = [[Some ''1'', Some ''x'']]\<rparr>"
  note t = column_detector
  have 1: "npi_column ?f1 = Some ''NPI''"
    using t[THEN conjunct1, of NPI_CANDIDATES 0 "columns ?f1" "ten_digit_rate ?f1"]
    by (simp add: npi_column_def NPI_CANDIDATES_def)
  have d2: "detect_column NPI_CANDIDATES (ten_digit_rate ?f2) [''a'', ''Npi '', ''c''] = Some ''Npi ''"
    by code_simp
  have 2: "first_maximum (ten_digit_rate ?f2) [''a'', ''Npi '', ''c''] ''Npi ''"
    using t[THEN conjunct2, THEN conjunct1, of NPI_CANDIDATES "[''a'', ''Npi '', ''c'']"
        "ten_digit_rate ?f2"] d2
    by (simp add: NPI_CANDIDATES_def)
  have z: "list_all (\<lambda>c. \<not> float_gt (ten_digit_rate ?f3 c) (Some 0)) [''a'', ''b'']" by code_simp
  have "detect_column NPI_CANDIDATES (ten_digit_rate ?f3) [''a'', ''b''] = None"
    using t[THEN conjunct2, THEN conjunct1, of NPI_CANDIDATES "[''a'', ''b'']" "ten_digit_rate ?f3"] z
    by (simp add: NPI_CANDIDATES_def)
  then have 3: "clean_npi_data clock_example ?f3 = Inl KeyError"
    using t[THEN conjunct2, THEN conjunct2, THEN conjunct1, of ?f3 clock_example]
    by (simp add: npi_column_def)
  from 1 2 3 d2 show ?thesis by (simp add: npi_column_def)
qed

end
